theory Spec2Isabelle
  imports Main
begin

section \<open>JavaScript values\<close>

text \<open>
  Strings are lists of code units; the model uses the 8-bit \<^typ>\<open>char\<close>, so it covers the
  strings whose code units are below 256. A value that may be \<^verbatim>\<open>undefined\<close> is an
  \<^typ>\<open>'a option\<close>. For a string, \<^verbatim>\<open>a || b\<close> yields \<^verbatim>\<open>a\<close> unless it is
  \<^verbatim>\<open>undefined\<close> or empty.
\<close>

definition truthy :: "string option \<Rightarrow> bool" where
  "truthy v = (case v of None \<Rightarrow> False | Some s \<Rightarrow> s \<noteq> [])"

definition js_or :: "string option \<Rightarrow> string option \<Rightarrow> string option" where
  "js_or a b = (if truthy a then a else b)"

definition js_or_str :: "string option \<Rightarrow> string \<Rightarrow> string" where
  "js_or_str a b = (case a of None \<Rightarrow> b | Some s \<Rightarrow> if s \<noteq> [] then s else b)"

definition startsWith :: "string \<Rightarrow> string \<Rightarrow> bool" where
  "startsWith s p = (take (length p) s = p)"

definition endsWith :: "string \<Rightarrow> string \<Rightarrow> bool" where
  "endsWith s p = (length p \<le> length s \<and> drop (length s - length p) s = p)"

text \<open>The white space of \<^verbatim>\<open>\s\<close> and \<^verbatim>\<open>trim\<close> among the 8-bit code units.\<close>

definition isSpace :: "char \<Rightarrow> bool" where
  "isSpace c = (of_char c \<in> {9, 10, 11, 12, 13, 32, 160 :: nat})"

fun firstSome :: "('a \<Rightarrow> 'b option) \<Rightarrow> 'a list \<Rightarrow> 'b option" where
  "firstSome f [] = None"
| "firstSome f (x # xs) = (case f x of Some y \<Rightarrow> Some y | None \<Rightarrow> firstSome f xs)"

subsection \<open>Regular expressions\<close>

text \<open>
  A \<^verbatim>\<open>RegExp\<close> object is its pattern and its flags; its \<^verbatim>\<open>lastIndex\<close> is state,
  passed to each call and returned by it. \<open>matchFrom re s i\<close> is the pattern tried at
  position \<open>i\<close> of \<open>s\<close>: the end of the match, or \<open>None\<close>.
\<close>

record RegExp =
  matchFrom :: "string \<Rightarrow> nat \<Rightarrow> nat option"
  global :: bool
  sticky :: bool

text \<open>The pattern matches somewhere in \<open>s\<close>.\<close>

definition matchesSomewhere :: "RegExp \<Rightarrow> string \<Rightarrow> bool" where
  "matchesSomewhere re s = (firstSome (matchFrom re s) [0..<length s + 1] \<noteq> None)"

text \<open>
  \<^verbatim>\<open>re.test(s)\<close> with \<^verbatim>\<open>re.lastIndex = lastIndex\<close>: the result and the
  \<^verbatim>\<open>lastIndex\<close> the call leaves. Without the global and the sticky flag the search
  starts at 0 and \<^verbatim>\<open>lastIndex\<close> is not written. With one of them the search starts
  at \<^verbatim>\<open>lastIndex\<close>, a sticky pattern is tried there only, a match leaves its end in
  \<^verbatim>\<open>lastIndex\<close> and a failure leaves 0.
\<close>

definition test :: "RegExp \<Rightarrow> string \<Rightarrow> nat \<Rightarrow> bool \<times> nat" where
  "test re s lastIndex =
     (let flagged = (global re \<or> sticky re);
          start = (if flagged then lastIndex else 0)
      in if length s < start then (False, if flagged then 0 else lastIndex)
         else
           case (if sticky re then matchFrom re s start
                 else firstSome (matchFrom re s) [start..<length s + 1]) of
             None \<Rightarrow> (False, if flagged then 0 else lastIndex)
           | Some e \<Rightarrow> (True, if flagged then e else lastIndex))"

section \<open>Data model (types.d.ts)\<close>

record Paginator =
  title :: string
  permalink :: string

datatype Tag = TagLabel string | TagObject string string

text \<open>
  The fields the two metadata interfaces share are the base record; \<^verbatim>\<open>ReleaseMetaData\<close>
  adds \<^verbatim>\<open>coverLabel\<close>, \<^verbatim>\<open>ReleaseHighlightMetaData\<close> adds \<^verbatim>\<open>date\<close> and
  \<^verbatim>\<open>tags\<close>. The optional \<^verbatim>\<open>prevItem\<close> and \<^verbatim>\<open>nextItem\<close> are absent as \<open>None\<close>.
\<close>

record MetaData =
  description :: "string option"
  nextItem :: "Paginator option"
  permalink :: string
  prevItem :: "Paginator option"
  readingTime :: string
  seriesPosition :: "int option"
  sort' :: "int option"
  source :: string
  title :: string
  truncated :: bool

record ReleaseMetaData = MetaData +
  coverLabel :: string

record ReleaseHighlightMetaData = MetaData +
  date :: "string option"
  tags :: "Tag list"

record 'm Entry =
  id' :: "string option"
  metadata :: 'm

type_synonym Release = "ReleaseMetaData Entry"
type_synonym ReleaseHighlight = "ReleaseHighlightMetaData Entry"

text \<open>
  The front matter object of a parsed file, with the fields the plugin reads. The plugin
  uses \<^verbatim>\<open>draft\<close> only as a condition, so the field holds the truth value of what
  the file gives. The fields \<^verbatim>\<open>id\<close> and \<^verbatim>\<open>sort\<close>, and \<^verbatim>\<open>include\<close> of the options,
  carry a prime: the plain names are taken.
\<close>

record FrontMatter =
  id' :: "string option"
  title :: "string option"
  description :: "string option"
  date :: "string option"
  series_position :: "int option"
  sort' :: "int option"
  cover_label :: "string option"
  draft :: "bool option"
  tags :: "Tag list option"

record PluginOptions =
  path :: string
  routeBasePath :: string
  include' :: "string list"
  truncateMarker :: "RegExp option"

record SiteConfig =
  baseUrl :: "string option"

record LoadContext =
  siteConfig :: SiteConfig
  siteDir :: string
  generatedFilesDir :: string

section \<open>Collaborators and environment\<close>

text \<open>
  The functions of Node's \<^verbatim>\<open>path\<close>, of \<^verbatim>\<open>@docusaurus/utils\<close> and of
  \<^verbatim>\<open>reading-time\<close> are parameters. \<^verbatim>\<open>parse\<close> yields front matter, content and
  excerpt, or \<open>None\<close> when it throws.
\<close>

record Lib =
  path_join :: "string \<Rightarrow> string \<Rightarrow> string"
  path_resolve :: "string \<Rightarrow> string \<Rightarrow> string"
  path_relative :: "string \<Rightarrow> string \<Rightarrow> string"
  aliasedSitePath :: "string \<Rightarrow> string \<Rightarrow> string"
  normalizeUrl :: "string list \<Rightarrow> string"
  parse :: "string \<Rightarrow> (FrontMatter \<times> string \<times> string option) option"
  readingTimeText :: "string \<Rightarrow> string"

text \<open>
  The file system and the process environment. \<open>globby env patterns cwd\<close> lists the
  matching paths relative to \<open>cwd\<close>; \<open>readFile\<close> is \<open>None\<close> where the read fails;
  \<open>completion\<close> gives the time at which the read of a path settles, which fixes the
  order in which the concurrent tasks of \<^verbatim>\<open>Promise.all\<close> resume; \<open>production\<close> is
  \<^verbatim>\<open>process.env.NODE_ENV === 'production'\<close>.
\<close>

record Env =
  existsSync :: "string \<Rightarrow> bool"
  globby :: "string list \<Rightarrow> string \<Rightarrow> string list"
  readFile :: "string \<Rightarrow> string option"
  completion :: "string \<Rightarrow> nat"
  production :: bool

datatype error = ReadFailure string | ParseFailure string

section \<open>releaseUtils: generateReleases and generateHighlights\<close>

text \<open>\<^verbatim>\<open>relativeSource.replace(/\.mdx?$/, '')\<close>\<close>

definition stripMdExt :: "string \<Rightarrow> string" where
  "stripMdExt s =
     (if endsWith s ''.md'' then take (length s - 3) s
      else if endsWith s ''.mdx'' then take (length s - 4) s
      else s)"

text \<open>\<^verbatim>\<open>truncateMarker?.test(content) || false\<close>\<close>

definition testMarker :: "RegExp option \<Rightarrow> string \<Rightarrow> nat \<Rightarrow> bool \<times> nat" where
  "testMarker marker content lastIndex =
     (case marker of None \<Rightarrow> (False, lastIndex) | Some re \<Rightarrow> test re content lastIndex)"

definition baseUrlOf :: "LoadContext \<Rightarrow> string" where
  "baseUrlOf ctx = (case baseUrl (siteConfig ctx) of None \<Rightarrow> [] | Some b \<Rightarrow> b)"

text \<open>
  The two callbacks mapped over the files share their first and last steps. The first
  reads and parses the file: \<open>Inl\<close> when the read or the parse fails.
\<close>

definition readParsed ::
  "Lib \<Rightarrow> Env \<Rightarrow> string \<Rightarrow> string
     \<Rightarrow> error + (string \<times> FrontMatter \<times> string \<times> string option)" where
  "readParsed lib env releaseDir relativeSource =
     (let src = path_join lib releaseDir relativeSource
      in case readFile env src of
           None \<Rightarrow> Inl (ReadFailure src)
         | Some fileString \<Rightarrow>
             (case parse lib fileString of
                None \<Rightarrow> Inl (ParseFailure src)
              | Some (frontMatter, content, excerpt) \<Rightarrow>
                  Inr (fileString, frontMatter, content, excerpt)))"

text \<open>
  The object that \<open>generateReleases\<close> pushes for a file; \<open>truncatedFlag\<close> is the result
  of the call of \<^verbatim>\<open>test\<close> in it.
\<close>

definition releaseOf ::
  "Lib \<Rightarrow> string \<Rightarrow> LoadContext \<Rightarrow> PluginOptions \<Rightarrow> string \<Rightarrow> string \<Rightarrow> FrontMatter \<Rightarrow> string
     \<Rightarrow> string option \<Rightarrow> bool \<Rightarrow> Release" where
  "releaseOf lib releaseDir ctx options relativeSource fileString frontMatter content excerpt
     truncatedFlag =
     (let aliasedSource =
            aliasedSitePath lib (path_join lib releaseDir relativeSource) (siteDir ctx);
          linkName = stripMdExt relativeSource;
          ttl = js_or_str (FrontMatter.title frontMatter) linkName;
          cover = js_or_str (cover_label frontMatter) ttl
      in \<lparr> Entry.id' = js_or (FrontMatter.id' frontMatter) (FrontMatter.title frontMatter),
           metadata =
             \<lparr> MetaData.description = js_or (FrontMatter.description frontMatter) excerpt,
               nextItem = None,
               MetaData.permalink =
                 normalizeUrl lib
                   [baseUrlOf ctx, routeBasePath options,
                    js_or_str (FrontMatter.id' frontMatter) linkName],
               prevItem = None,
               readingTime = readingTimeText lib fileString,
               seriesPosition = series_position frontMatter,
               MetaData.sort' = FrontMatter.sort' frontMatter,
               source = aliasedSource,
               MetaData.title = ttl,
               truncated = truncatedFlag,
               coverLabel = cover \<rparr> \<rparr>)"

text \<open>The object that \<open>generateHighlights\<close> pushes for a file.\<close>

definition highlightOf ::
  "Lib \<Rightarrow> string \<Rightarrow> LoadContext \<Rightarrow> PluginOptions \<Rightarrow> string \<Rightarrow> string \<Rightarrow> FrontMatter \<Rightarrow> string
     \<Rightarrow> string option \<Rightarrow> bool \<Rightarrow> ReleaseHighlight" where
  "highlightOf lib releaseDir ctx options relativeSource fileString frontMatter content excerpt
     truncatedFlag =
     (let aliasedSource =
            aliasedSitePath lib (path_join lib releaseDir relativeSource) (siteDir ctx);
          linkName = stripMdExt relativeSource;
          tgs = (case FrontMatter.tags frontMatter of None \<Rightarrow> [] | Some ts \<Rightarrow> ts);
          ttl = js_or_str (FrontMatter.title frontMatter) linkName
      in \<lparr> Entry.id' = js_or (FrontMatter.id' frontMatter) (FrontMatter.title frontMatter),
           metadata =
             \<lparr> MetaData.description = js_or (FrontMatter.description frontMatter) excerpt,
               nextItem = None,
               MetaData.permalink =
                 normalizeUrl lib
                   [baseUrlOf ctx, routeBasePath options,
                    js_or_str (FrontMatter.id' frontMatter) linkName],
               prevItem = None,
               readingTime = readingTimeText lib fileString,
               seriesPosition = series_position frontMatter,
               MetaData.sort' = FrontMatter.sort' frontMatter,
               source = aliasedSource,
               MetaData.title = ttl,
               truncated = truncatedFlag,
               ReleaseHighlightMetaData.date = FrontMatter.date frontMatter,
               ReleaseHighlightMetaData.tags = tgs \<rparr> \<rparr>)"

text \<open>
  One callback, run with the \<^verbatim>\<open>lastIndex\<close> of the marker as it stands: \<open>Inl\<close> when
  it rejects, \<open>Inr (None, l)\<close> when the file is skipped as a draft of a production build,
  \<open>Inr (Some x, l)\<close> when it pushes \<open>x\<close>, the object that \<open>build\<close> makes; \<open>l\<close> is the
  \<^verbatim>\<open>lastIndex\<close> it leaves.
\<close>

definition fileTask ::
  "Lib \<Rightarrow> Env \<Rightarrow> string \<Rightarrow> RegExp option
     \<Rightarrow> (string \<Rightarrow> string \<Rightarrow> FrontMatter \<Rightarrow> string \<Rightarrow> string option \<Rightarrow> bool \<Rightarrow> 'a)
     \<Rightarrow> string \<Rightarrow> nat \<Rightarrow> error + ('a option \<times> nat)" where
  "fileTask lib env releaseDir marker build relativeSource lastIndex =
     (case readParsed lib env releaseDir relativeSource of
        Inl e \<Rightarrow> Inl e
      | Inr (fileString, frontMatter, content, excerpt) \<Rightarrow>
          if draft frontMatter = Some True \<and> production env then Inr (None, lastIndex)
          else
            (case testMarker marker content lastIndex of
               (truncatedFlag, lastIndex') \<Rightarrow>
                 Inr (Some (build relativeSource fileString frontMatter content excerpt
                              truncatedFlag),
                      lastIndex')))"

text \<open>
  The last part of the permalink of a file, \<^verbatim>\<open>frontMatter.id || linkName\<close>, when the
  file can be read and parsed.
\<close>

definition fileKey :: "Lib \<Rightarrow> Env \<Rightarrow> string \<Rightarrow> string \<Rightarrow> string option" where
  "fileKey lib env releaseDir relativeSource =
     (case readParsed lib env releaseDir relativeSource of
        Inl e \<Rightarrow> None
      | Inr (fileString, frontMatter, content, excerpt) \<Rightarrow>
          Some (js_or_str (FrontMatter.id' frontMatter) (stripMdExt relativeSource)))"

text \<open>
  \<^verbatim>\<open>Promise.all\<close> over the tasks: each task resumes when its read has settled, so the
  tasks run one after the other in completion order, each with the \<^verbatim>\<open>lastIndex\<close> the
  one before left, and the array is filled in that order. The first failure rejects the
  whole batch; the tasks still pending run on, their pushes are lost and the
  \<^verbatim>\<open>lastIndex\<close> is the one the last of them leaves.
\<close>

fun gather ::
  "(string \<Rightarrow> nat \<Rightarrow> error + ('a option \<times> nat)) \<Rightarrow> string list \<Rightarrow> nat
     \<Rightarrow> nat \<times> (error + 'a list)" where
  "gather task [] lastIndex = (lastIndex, Inr [])"
| "gather task (f # fs) lastIndex =
     (case task f lastIndex of
        Inl e \<Rightarrow> (case gather task fs lastIndex of (lastIndex', r) \<Rightarrow> (lastIndex', Inl e))
      | Inr (None, lastIndex') \<Rightarrow> gather task fs lastIndex'
      | Inr (Some x, lastIndex') \<Rightarrow>
          (case gather task fs lastIndex' of
             (lastIndex'', Inl e) \<Rightarrow> (lastIndex'', Inl e)
           | (lastIndex'', Inr xs) \<Rightarrow> (lastIndex'', Inr (x # xs))))"

definition settleOrder :: "Lib \<Rightarrow> Env \<Rightarrow> string \<Rightarrow> string list \<Rightarrow> string list" where
  "settleOrder lib env releaseDir files =
     sort_key (\<lambda>f. completion env (path_join lib releaseDir f)) files"

text \<open>
  The two generators take the \<^verbatim>\<open>lastIndex\<close> of \<^verbatim>\<open>options.truncateMarker\<close> and
  return the one they leave with their result.
\<close>

definition generateReleases ::
  "Lib \<Rightarrow> Env \<Rightarrow> string \<Rightarrow> LoadContext \<Rightarrow> PluginOptions \<Rightarrow> nat
     \<Rightarrow> nat \<times> (error + Release list)" where
  "generateReleases lib env releaseDir ctx options lastIndex =
     (if \<not> existsSync env releaseDir then (lastIndex, Inr [])
      else
        let releaseFiles = globby env (include' options) releaseDir
        in gather (fileTask lib env releaseDir (truncateMarker options)
                     (releaseOf lib releaseDir ctx options))
             (settleOrder lib env releaseDir releaseFiles) lastIndex)"

text \<open>\<^verbatim>\<open>include.map(glob => `highlights/${glob}`)\<close>\<close>

definition highlightInclude :: "string list \<Rightarrow> string list" where
  "highlightInclude globs = map (\<lambda>glob. ''highlights/'' @ glob) globs"

definition generateHighlights ::
  "Lib \<Rightarrow> Env \<Rightarrow> string \<Rightarrow> LoadContext \<Rightarrow> PluginOptions \<Rightarrow> nat
     \<Rightarrow> nat \<times> (error + ReleaseHighlight list)" where
  "generateHighlights lib env releaseDir ctx options lastIndex =
     (if \<not> existsSync env releaseDir then (lastIndex, Inr [])
      else
        let highlightFiles = globby env (highlightInclude (include' options)) releaseDir
        in gather (fileTask lib env releaseDir (truncateMarker options)
                     (highlightOf lib releaseDir ctx options))
             (settleOrder lib env releaseDir highlightFiles) lastIndex)"

section \<open>index: the plugin's state and loadContent\<close>

text \<open>
  The objects of the arrays are mutated in place, so they live in a store: a reference
  is an address, and an array is the list of the references it holds. The plugin keeps
  the two arrays in the variables \<^verbatim>\<open>releases\<close> and \<^verbatim>\<open>releaseHighlights\<close> of its
  closure, which its other hooks read. An object of the arrays and its metadata object are
  made together and are reached through the array only, so one cell holds both. The
  \<^verbatim>\<open>lastIndex\<close> of the marker of the options outlives a load as well.
\<close>

type_synonym ref = nat
type_synonym 'm heap = "ref \<Rightarrow> 'm Entry"

definition paginatorOf :: "('a MetaData_scheme) Entry \<Rightarrow> Paginator" where
  "paginatorOf item =
     \<lparr> Paginator.title = MetaData.title (metadata item),
       Paginator.permalink = MetaData.permalink (metadata item) \<rparr>"

text \<open>\<^verbatim>\<open>release.metadata.prevItem = p\<close> and \<^verbatim>\<open>release.metadata.nextItem = p\<close>\<close>

definition setPrevItem ::
  "ref \<Rightarrow> Paginator \<Rightarrow> ('a MetaData_scheme) heap \<Rightarrow> ('a MetaData_scheme) heap" where
  "setPrevItem r p h = h(r := (h r)\<lparr>metadata := (metadata (h r))\<lparr>prevItem := Some p\<rparr>\<rparr>)"

definition setNextItem ::
  "ref \<Rightarrow> Paginator \<Rightarrow> ('a MetaData_scheme) heap \<Rightarrow> ('a MetaData_scheme) heap" where
  "setNextItem r p h = h(r := (h r)\<lparr>metadata := (metadata (h r))\<lparr>nextItem := Some p\<rparr>\<rparr>)"

text \<open>
  The callback of \<^verbatim>\<open>forEach\<close> at one index of the array \<open>rs\<close>; it is the same for the
  releases and for the highlights.
\<close>

definition linkAt ::
  "ref list \<Rightarrow> nat \<Rightarrow> ('a MetaData_scheme) heap \<Rightarrow> ('a MetaData_scheme) heap" where
  "linkAt rs index h =
     (let release = rs ! index;
          h1 = (if index > 0
                then setPrevItem release (paginatorOf (h (rs ! (index - 1)))) h
                else h)
      in if int index < int (length rs) - 1
         then setNextItem release (paginatorOf (h1 (rs ! (index + 1)))) h1
         else h1)"

definition colocate :: "ref list \<Rightarrow> ('a MetaData_scheme) heap \<Rightarrow> ('a MetaData_scheme) heap" where
  "colocate rs h = fold (linkAt rs) [0..<length rs] h"

text \<open>
  What the callback at one index does to the object it is called with, when the titles and
  permalinks of the neighbours are those of the store \<open>h0\<close>.
\<close>

definition relink ::
  "('a MetaData_scheme) heap \<Rightarrow> ref list \<Rightarrow> nat \<Rightarrow> ('a MetaData_scheme) Entry
     \<Rightarrow> ('a MetaData_scheme) Entry" where
  "relink h0 rs index item =
     item\<lparr>metadata := (metadata item)
       \<lparr>prevItem :=
          (if index > 0 then Some (paginatorOf (h0 (rs ! (index - 1))))
           else prevItem (metadata item)),
        nextItem :=
          (if int index < int (length rs) - 1 then Some (paginatorOf (h0 (rs ! (index + 1))))
           else nextItem (metadata item))\<rparr>\<rparr>"

text \<open>The objects of a fresh array are stored at the addresses from \<open>base\<close> on.\<close>

definition allocate :: "'m Entry list \<Rightarrow> ref \<Rightarrow> 'm heap \<Rightarrow> 'm heap" where
  "allocate items base h =
     (\<lambda>r. if base \<le> r \<and> r < base + length items then items ! (r - base) else h r)"

record PluginState =
  releaseHeap :: "ReleaseMetaData heap"
  highlightHeap :: "ReleaseHighlightMetaData heap"
  nextRef :: ref
  releases :: "ref list"
  releaseHighlights :: "ref list"
  markerLastIndex :: nat

text \<open>
  \<open>loadContent\<close> returns the state it leaves and either the error that rejected it or
  the two arrays it returns.
\<close>

definition loadContent ::
  "Lib \<Rightarrow> Env \<Rightarrow> LoadContext \<Rightarrow> PluginOptions \<Rightarrow> PluginState
     \<Rightarrow> PluginState \<times> (error + ref list \<times> ref list)" where
  "loadContent lib env ctx options st =
     (let contentPath = path_resolve lib (siteDir ctx) (path options)
      in case generateReleases lib env contentPath ctx options (markerLastIndex st) of
           (l1, Inl e) \<Rightarrow> (st\<lparr>markerLastIndex := l1\<rparr>, Inl e)
         | (l1, Inr generated) \<Rightarrow>
             let rs = [nextRef st..<nextRef st + length generated];
                 st1 = st\<lparr> releaseHeap :=
                            colocate rs (allocate generated (nextRef st) (releaseHeap st)),
                          nextRef := nextRef st + length generated,
                          releases := rs,
                          markerLastIndex := l1 \<rparr>
             in case generateHighlights lib env contentPath ctx options l1 of
                  (l2, Inl e) \<Rightarrow> (st1\<lparr>markerLastIndex := l2\<rparr>, Inl e)
                | (l2, Inr highlights) \<Rightarrow>
                    let hs = [nextRef st1..<nextRef st1 + length highlights];
                        st2 = st1\<lparr> highlightHeap :=
                                    colocate hs
                                      (allocate highlights (nextRef st1) (highlightHeap st1)),
                                  nextRef := nextRef st1 + length highlights,
                                  releaseHighlights := hs,
                                  markerLastIndex := l2 \<rparr>
                    in (st2, Inr (rs, hs)))"

section \<open>releaseUtils: linkify\<close>

definition newline :: char where
  "newline = CHR 0x0A"

definition trim :: "string \<Rightarrow> string" where
  "trim s = rev (dropWhile isSpace (rev (dropWhile isSpace s)))"

text \<open>\<^verbatim>\<open>s.split(c)\<close> and \<^verbatim>\<open>lines.join(c)\<close> for a one-character separator.\<close>

fun splitOn :: "char \<Rightarrow> string \<Rightarrow> string list" where
  "splitOn c [] = [[]]"
| "splitOn c (x # xs) =
     (let ls = splitOn c xs
      in if x = c then [] # ls else (x # hd ls) # tl ls)"

fun joinWith :: "char \<Rightarrow> string list \<Rightarrow> string" where
  "joinWith c [] = []"
| "joinWith c [l] = l"
| "joinWith c (l # ls) = l @ c # joinWith c ls"

subsection \<open>The pattern of link targets\<close>

text \<open>
  \<^verbatim>\<open>/(?:(?:\]\()|(?:\]:\s?))(?!https)([^'")\]\s>]+\.mdx?)/g\<close>

  \<open>linkChar\<close> is the character class of the group. \<open>captureLen s\<close> is the length of the
  group matched at the start of \<open>s\<close>: the greedy \<^verbatim>\<open>+\<close> takes the whole run of class
  characters and gives back until \<^verbatim>\<open>.md\<close> follows, so the longest admissible run
  wins, and the optional \<^verbatim>\<open>x\<close> is taken when present.
\<close>

definition linkChar :: "char \<Rightarrow> bool" where
  "linkChar c =
     (c \<noteq> CHR 0x27 \<and> c \<noteq> CHR 0x22 \<and> c \<noteq> CHR '')'' \<and> c \<noteq> CHR '']'' \<and> c \<noteq> CHR ''>''
      \<and> \<not> isSpace c)"

definition captureLen :: "string \<Rightarrow> nat option" where
  "captureLen s =
     (let run = length (takeWhile linkChar s)
      in case find (\<lambda>k. startsWith (drop k s) ''.md'') (rev [1..<run + 1]) of
           None \<Rightarrow> None
         | Some k \<Rightarrow> Some (k + 3 + (if startsWith (drop (k + 3) s) ''x'' then 1 else 0)))"

text \<open>The lookahead and the group at position \<open>q\<close>: the captured text and the end of the match.\<close>

definition targetAt :: "string \<Rightarrow> nat \<Rightarrow> (string \<times> nat) option" where
  "targetAt line q =
     (let s = drop q line
      in if startsWith s ''https'' then None
         else case captureLen s of
                None \<Rightarrow> None
              | Some n \<Rightarrow> Some (take n s, q + n))"

text \<open>
  A match that starts at position \<open>p\<close>: \<^verbatim>\<open>](\<close>, or \<^verbatim>\<open>]:\<close> with one optional white
  space, which is tried taken first.
\<close>

definition matchAt :: "string \<Rightarrow> nat \<Rightarrow> (string \<times> nat) option" where
  "matchAt line p =
     (let s = drop p line
      in if startsWith s ''](''  then targetAt line (p + 2)
         else if startsWith s '']:'' then
           (if (case drop (p + 2) line of [] \<Rightarrow> False | c # _ \<Rightarrow> isSpace c)
            then (case targetAt line (p + 3) of
                    Some m \<Rightarrow> Some m
                  | None \<Rightarrow> targetAt line (p + 2))
            else targetAt line (p + 2))
         else None)"

text \<open>
  \<^verbatim>\<open>mdRegex.exec(line)\<close> with \<^verbatim>\<open>mdRegex.lastIndex = lastIndex\<close>: the leftmost match
  that starts at \<open>lastIndex\<close> or later, as the captured group and the new
  \<^verbatim>\<open>lastIndex\<close>; \<open>None\<close> is \<^verbatim>\<open>null\<close>.
\<close>

definition exec :: "string \<Rightarrow> nat \<Rightarrow> (string \<times> nat) option" where
  "exec line lastIndex =
     (if length line < lastIndex then None
      else firstSome (matchAt line) [lastIndex..<length line])"

subsection \<open>String.prototype.replace with a string pattern\<close>

definition indexOf :: "string \<Rightarrow> string \<Rightarrow> nat option" where
  "indexOf s pat = find (\<lambda>i. startsWith (drop i s) pat) [0..<length s + 1]"

text \<open>
  The replacement text is expanded: \<^verbatim>\<open>$$\<close> is a dollar sign, \<^verbatim>\<open>$&\<close> the matched
  text, \<^verbatim>\<open>$`\<close> the text before the match and \<^verbatim>\<open>$'\<close> the text after it.
\<close>

fun substitution :: "string \<Rightarrow> string \<Rightarrow> string \<Rightarrow> string \<Rightarrow> string" where
  "substitution m b a [] = []"
| "substitution m b a [c] = [c]"
| "substitution m b a (c # d # rest) =
     (if c = CHR ''$'' \<and> d = CHR ''$'' then CHR ''$'' # substitution m b a rest
      else if c = CHR ''$'' \<and> d = CHR ''&'' then m @ substitution m b a rest
      else if c = CHR ''$'' \<and> d = CHR 0x60 then b @ substitution m b a rest
      else if c = CHR ''$'' \<and> d = CHR 0x27 then a @ substitution m b a rest
      else c # substitution m b a (d # rest))"

definition replaceFirst :: "string \<Rightarrow> string \<Rightarrow> string \<Rightarrow> string" where
  "replaceFirst s pat repl =
     (case indexOf s pat of
        None \<Rightarrow> s
      | Some i \<Rightarrow>
          let pre = take i s; post = drop (i + length pat) s
          in pre @ substitution pat pre post repl @ post)"

subsection \<open>The rewriting loop\<close>

text \<open>The \<^verbatim>\<open>forEach\<close> over the collection: the last entry with the source wins.\<close>

definition findPermalink :: "('a MetaData_scheme) Entry list \<Rightarrow> string \<Rightarrow> string option" where
  "findPermalink rels aliasedPostSource =
     fold (\<lambda>release releasePermalink.
             if source (metadata release) = aliasedPostSource
             then Some (MetaData.permalink (metadata release))
             else releasePermalink) rels None"

text \<open>
  The \<^verbatim>\<open>while\<close> loop on one line. A replacement can bring a new match behind
  \<^verbatim>\<open>lastIndex\<close>, so the loop need not end: \<open>None\<close> is the loop that runs forever.
\<close>

partial_function (option) rewriteLinks ::
  "Lib \<Rightarrow> string \<Rightarrow> string \<Rightarrow> ('a MetaData_scheme) Entry list \<Rightarrow> string \<Rightarrow> nat \<Rightarrow> string option" where
  "rewriteLinks lib site releasePath rels modifiedLine lastIndex =
     (case exec modifiedLine lastIndex of
        None \<Rightarrow> Some modifiedLine
      | Some (mdLink, lastIndex') \<Rightarrow>
          (let aliasedPostSource =
                 ''@site/'' @ path_relative lib site (path_resolve lib releasePath mdLink);
               releasePermalink = findPermalink rels aliasedPostSource
           in rewriteLinks lib site releasePath rels
                (case releasePermalink of
                   None \<Rightarrow> modifiedLine
                 | Some p \<Rightarrow> if p \<noteq> [] then replaceFirst modifiedLine mdLink p else modifiedLine)
                lastIndex'))"

declare rewriteLinks.simps [code]

definition isFence :: "string \<Rightarrow> bool" where
  "isFence line = startsWith (trim line) [CHR 0x60, CHR 0x60, CHR 0x60]"

fun linkifyLines ::
  "Lib \<Rightarrow> string \<Rightarrow> string \<Rightarrow> ('a MetaData_scheme) Entry list \<Rightarrow> bool \<Rightarrow> string list
     \<Rightarrow> string list option" where
  "linkifyLines lib site releasePath rels fencedBlock [] = Some []"
| "linkifyLines lib site releasePath rels fencedBlock (line # rest) =
     (let fencedBlock' = (if isFence line then \<not> fencedBlock else fencedBlock)
      in case (if fencedBlock' then Some line
               else rewriteLinks lib site releasePath rels line 0) of
           None \<Rightarrow> None
         | Some l \<Rightarrow>
             (case linkifyLines lib site releasePath rels fencedBlock' rest of
                None \<Rightarrow> None
              | Some ls \<Rightarrow> Some (l # ls)))"

definition linkify ::
  "Lib \<Rightarrow> string \<Rightarrow> string \<Rightarrow> string \<Rightarrow> ('a MetaData_scheme) Entry list \<Rightarrow> string option" where
  "linkify lib fileContent site releasePath rels =
     map_option (joinWith newline)
       (linkifyLines lib site releasePath rels False (splitOn newline fileContent))"

section \<open>index: the default options\<close>

text \<open>
  \<^verbatim>\<open>/<!--\s*(truncate)\s*-->/\<close>: the pattern tried at position \<open>i\<close>. The white
  space is taken greedily; nothing is given back, since neither literal starts with white
  space.
\<close>

definition markerFrom :: "string \<Rightarrow> nat \<Rightarrow> nat option" where
  "markerFrom s i =
     (let s0 = drop i s
      in if \<not> startsWith s0 ''<!--'' then None
         else
           let a = length (takeWhile isSpace (drop 4 s0));
               s1 = drop (4 + a) s0
           in if \<not> startsWith s1 ''truncate'' then None
              else
                let b = length (takeWhile isSpace (drop 8 s1));
                    s2 = drop (8 + b) s1
                in if startsWith s2 ''-->'' then Some (i + 4 + a + 8 + b + 3) else None)"

definition defaultTruncateMarker :: RegExp where
  "defaultTruncateMarker = \<lparr> matchFrom = markerFrom, global = False, sticky = False \<rparr>"

text \<open>
  The options of the compiled \<^verbatim>\<open>index.js\<close>, with the fields that the functions above
  read.
\<close>

definition DEFAULT_OPTIONS :: PluginOptions where
  "DEFAULT_OPTIONS =
     \<lparr> path = ''releases'',
       routeBasePath = ''releases-new'',
       include' = [''*.md'', ''*.mdx''],
       truncateMarker = Some defaultTruncateMarker \<rparr>"

section \<open>A sample site\<close>

text \<open>
  An instance of the collaborators and of the environment on which the model runs:
  POSIX paths with an absolute base, \<^verbatim>\<open>@site/\<close> aliases, URLs joined with single
  slashes, a front matter block of \<^verbatim>\<open>id\<close>, \<^verbatim>\<open>title\<close> and \<^verbatim>\<open>draft\<close> lines between
  two \<^verbatim>\<open>---\<close> lines, and a content directory \<^verbatim>\<open>/site/releases\<close> holding given files.
\<close>

definition segments :: "string \<Rightarrow> string list" where
  "segments p = filter (\<lambda>s. s \<noteq> []) (splitOn (CHR ''/'') p)"

fun normalizeSegments :: "string list \<Rightarrow> string list \<Rightarrow> string list" where
  "normalizeSegments acc [] = rev acc"
| "normalizeSegments acc (s # ss) =
     (if s = ''.'' then normalizeSegments acc ss
      else if s = ''..'' then normalizeSegments (tl acc) ss
      else normalizeSegments (s # acc) ss)"

definition absolutePath :: "string list \<Rightarrow> string" where
  "absolutePath segs = (if segs = [] then ''/'' else concat (map (\<lambda>s. CHR ''/'' # s) segs))"

definition posixResolve :: "string \<Rightarrow> string \<Rightarrow> string" where
  "posixResolve base p =
     (if startsWith p ''/'' then absolutePath (normalizeSegments [] (segments p))
      else absolutePath (normalizeSegments [] (segments base @ segments p)))"

fun dropCommon :: "string list \<Rightarrow> string list \<Rightarrow> string list \<times> string list" where
  "dropCommon (x # xs) (y # ys) = (if x = y then dropCommon xs ys else (x # xs, y # ys))"
| "dropCommon xs ys = (xs, ys)"

definition posixRelative :: "string \<Rightarrow> string \<Rightarrow> string" where
  "posixRelative from to =
     (case dropCommon (normalizeSegments [] (segments from))
             (normalizeSegments [] (segments to)) of
        (up, down) \<Rightarrow> joinWith (CHR ''/'') (replicate (length up) ''..'' @ down))"

fun collapseSlashes :: "string \<Rightarrow> string" where
  "collapseSlashes (c # d # rest) =
     (if c = CHR ''/'' \<and> d = CHR ''/'' then collapseSlashes (d # rest)
      else c # collapseSlashes (d # rest))"
| "collapseSlashes s = s"

definition noFrontMatter :: FrontMatter where
  "noFrontMatter =
     \<lparr> FrontMatter.id' = None, FrontMatter.title = None, FrontMatter.description = None,
       FrontMatter.date = None, series_position = None, FrontMatter.sort' = None,
       cover_label = None, draft = None, FrontMatter.tags = None \<rparr>"

definition frontMatterLine :: "string \<Rightarrow> FrontMatter \<Rightarrow> FrontMatter" where
  "frontMatterLine l fm =
     (if startsWith l ''id: '' then fm\<lparr>FrontMatter.id' := Some (drop 4 l)\<rparr>
      else if startsWith l ''title: '' then fm\<lparr>FrontMatter.title := Some (drop 7 l)\<rparr>
      else if l = ''draft: true'' then fm\<lparr>draft := Some True\<rparr>
      else fm)"

definition sampleParse :: "string \<Rightarrow> (FrontMatter \<times> string \<times> string option) option" where
  "sampleParse fileString =
     (case splitOn newline fileString of
        [] \<Rightarrow> Some (noFrontMatter, fileString, None)
      | l # ls \<Rightarrow>
          if l = ''---''
          then (let header = takeWhile (\<lambda>l. l \<noteq> ''---'') ls
                in Some (fold frontMatterLine header noFrontMatter,
                         joinWith newline (drop (length header + 1) ls), None))
          else Some (noFrontMatter, fileString, None))"

definition sampleLib :: Lib where
  "sampleLib =
     \<lparr> path_join = posixResolve,
       path_resolve = posixResolve,
       path_relative = posixRelative,
       aliasedSitePath = (\<lambda>filePath site. ''@site/'' @ posixRelative site filePath),
       normalizeUrl = (\<lambda>parts. collapseSlashes (joinWith (CHR ''/'') parts)),
       parse = sampleParse,
       readingTimeText = (\<lambda>fileString. ''1 min read'') \<rparr>"

text \<open>A pattern with one \<^verbatim>\<open>*\<close>, which stands for any characters but the slash.\<close>

definition globMatch :: "string \<Rightarrow> string \<Rightarrow> bool" where
  "globMatch pat name =
     (let pre = takeWhile (\<lambda>c. c \<noteq> CHR ''*'') pat;
          suf = drop (length pre + 1) pat
      in if length pre = length pat then name = pat
         else length pre + length suf \<le> length name \<and> startsWith name pre \<and> endsWith name suf \<and>
              CHR ''/'' \<notin> set (take (length name - length pre - length suf) (drop (length pre) name)))"

definition sampleEnv :: "(string \<times> string) list \<Rightarrow> bool \<Rightarrow> Env" where
  "sampleEnv files isProduction =
     \<lparr> existsSync = (\<lambda>p. p = ''/site/releases''),
       globby = (\<lambda>patterns cwd.
         if cwd = ''/site/releases''
         then remdups (concat (map (\<lambda>pat. filter (globMatch pat) (map fst files)) patterns))
         else []),
       readFile = map_of (map (\<lambda>(name, text). (''/site/releases/'' @ name, text)) files),
       completion = (\<lambda>p. 0),
       production = isProduction \<rparr>"

definition sampleContext :: LoadContext where
  "sampleContext =
     \<lparr> siteConfig = \<lparr> baseUrl = Some ''/'' \<rparr>,
       siteDir = ''/site'',
       generatedFilesDir = ''/site/.docusaurus'' \<rparr>"

definition v1Text :: string where
  "v1Text = ''First release'' @ [newline] @ ''<!-- truncate -->'' @ [newline] @ ''Details''"

definition v2Text :: string where
  "v2Text =
     ''---'' @ [newline] @ ''draft: true'' @ [newline] @ ''---'' @ [newline] @ ''Second release''"

definition fastText :: string where
  "fastText = ''Faster <!--truncate--> now''"

definition wipText :: string where
  "wipText = ''---'' @ [newline] @ ''draft: true'' @ [newline] @ ''---'' @ [newline] @ ''Soon''"

definition sampleFiles :: "(string \<times> string) list" where
  "sampleFiles =
     [(''v1.md'', v1Text), (''v2.md'', v2Text),
      (''highlights/fast.md'', fastText), (''highlights/wip.md'', wipText)]"

definition draftFrontMatter :: FrontMatter where
  "draftFrontMatter = noFrontMatter\<lparr>draft := Some True\<rparr>"

text \<open>The objects built from the sample files.\<close>

definition v1Release :: Release where
  "v1Release =
     releaseOf sampleLib ''/site/releases'' sampleContext DEFAULT_OPTIONS ''v1.md''
       v1Text noFrontMatter v1Text None True"

definition v2Release :: Release where
  "v2Release =
     releaseOf sampleLib ''/site/releases'' sampleContext DEFAULT_OPTIONS ''v2.md''
       v2Text draftFrontMatter ''Second release'' None False"

definition fastHighlight :: ReleaseHighlight where
  "fastHighlight =
     highlightOf sampleLib ''/site/releases'' sampleContext DEFAULT_OPTIONS ''highlights/fast.md''
       fastText noFrontMatter fastText None True"

definition wipHighlight :: ReleaseHighlight where
  "wipHighlight =
     highlightOf sampleLib ''/site/releases'' sampleContext DEFAULT_OPTIONS ''highlights/wip.md''
       wipText draftFrontMatter ''Soon'' None False"

text \<open>Two files whose names differ in the extension only.\<close>

definition twinFiles :: "(string \<times> string) list" where
  "twinFiles = [(''a.md'', ''One''), (''a.mdx'', ''Two'')]"

definition twinMd :: Release where
  "twinMd =
     releaseOf sampleLib ''/site/releases'' sampleContext DEFAULT_OPTIONS ''a.md''
       ''One'' noFrontMatter ''One'' None False"

definition twinMdx :: Release where
  "twinMdx =
     releaseOf sampleLib ''/site/releases'' sampleContext DEFAULT_OPTIONS ''a.mdx''
       ''Two'' noFrontMatter ''Two'' None False"

text \<open>A store with the two sample releases, and the state of the plugin before the first load.\<close>

definition sampleHeap :: "ReleaseMetaData heap" where
  "sampleHeap = allocate [v1Release, v2Release] 0 (\<lambda>r. v1Release)"

definition initialState :: PluginState where
  "initialState =
     \<lparr> releaseHeap = (\<lambda>r. v1Release), highlightHeap = (\<lambda>r. fastHighlight), nextRef = 0,
       releases = [], releaseHighlights = [], markerLastIndex = 0 \<rparr>"

text \<open>Two releases, the first with a front matter id, for the link rewriter.\<close>

definition notesText :: string where
  "notesText = ''---'' @ [newline] @ ''id: v1'' @ [newline] @ ''---'' @ [newline] @ ''Notes''"

definition linkFiles :: "(string \<times> string) list" where
  "linkFiles = [(''initial-release-notes.md'', notesText), (''v2.md'', ''Second release'')]"

definition notesRelease :: Release where
  "notesRelease =
     releaseOf sampleLib ''/site/releases'' sampleContext DEFAULT_OPTIONS
       ''initial-release-notes.md'' notesText (noFrontMatter\<lparr>FrontMatter.id' := Some ''v1''\<rparr>)
       ''Notes'' None False"

definition secondRelease :: Release where
  "secondRelease =
     releaseOf sampleLib ''/site/releases'' sampleContext DEFAULT_OPTIONS ''v2.md''
       ''Second release'' noFrontMatter ''Second release'' None False"

text \<open>A release whose permalink holds a link to the release itself.\<close>

definition loopRelease :: Release where
  "loopRelease = v1Release\<lparr>metadata := (metadata v1Release)\<lparr>MetaData.permalink := ''xxxxx](v1.md''\<rparr>\<rparr>"

text \<open>
  The options with the default pattern under the global flag, and two files whose bodies
  both hold the marker.
\<close>

definition globalMarkerOptions :: PluginOptions where
  "globalMarkerOptions =
     DEFAULT_OPTIONS\<lparr>truncateMarker := Some (defaultTruncateMarker\<lparr>global := True\<rparr>)\<rparr>"

definition markedText :: string where
  "markedText = ''<!-- truncate -->B''"

definition markedFiles :: "(string \<times> string) list" where
  "markedFiles = [(''a.md'', ''A <!-- truncate -->''), (''b.md'', markedText)]"

section \<open>Properties of generateReleases and generateHighlights\<close>

lemma gather_sound:
  "gather task fs l0 = (l1, Inr xs) \<Longrightarrow> x \<in> set xs \<Longrightarrow>
     \<exists>f\<in>set fs. \<exists>l l'. task f l = Inr (Some x, l')"
proof (induction fs arbitrary: xs l0)
  case Nil
  then show ?case by simp
next
  case (Cons f fs)
  show ?case
  proof (cases "task f l0")
    case (Inl e)
    with Cons.prems show ?thesis by (simp split: prod.splits)
  next
    case (Inr r)
    obtain opt l' where r: "r = (opt, l')" by (cases r)
    show ?thesis
    proof (cases opt)
      case None
      with Inr r Cons.prems have "gather task fs l' = (l1, Inr xs)" by simp
      from Cons.IH [OF this Cons.prems(2)] show ?thesis by auto
    next
      case (Some y)
      with Inr r Cons.prems(1) obtain ys where
        ys: "gather task fs l' = (l1, Inr ys)" "xs = y # ys"
        by (auto split: prod.splits sum.splits)
      show ?thesis
      proof (cases "x = y")
        case True
        with Inr r Some show ?thesis by auto
      next
        case False
        with ys Cons.prems(2) have "x \<in> set ys" by simp
        from Cons.IH [OF ys(1) this] show ?thesis by auto
      qed
    qed
  qed
qed

lemma gather_complete:
  "gather task fs l0 = (l1, Inr xs) \<Longrightarrow> f \<in> set fs \<Longrightarrow>
     \<exists>l r l'. task f l = Inr (r, l') \<and> (\<forall>x. r = Some x \<longrightarrow> x \<in> set xs)"
proof (induction fs arbitrary: xs l0)
  case Nil
  then show ?case by simp
next
  case (Cons a fs)
  show ?case
  proof (cases "task a l0")
    case (Inl e)
    with Cons.prems show ?thesis by (simp split: prod.splits)
  next
    case (Inr r)
    obtain opt l' where r: "r = (opt, l')" by (cases r)
    show ?thesis
    proof (cases opt)
      case None
      with Inr r Cons.prems have g: "gather task fs l' = (l1, Inr xs)" by simp
      show ?thesis
      proof (cases "f = a")
        case True
        with Inr r None show ?thesis by auto
      next
        case False
        with Cons.prems(2) have "f \<in> set fs" by simp
        from Cons.IH [OF g this] show ?thesis .
      qed
    next
      case (Some y)
      with Inr r Cons.prems(1) obtain ys where
        ys: "gather task fs l' = (l1, Inr ys)" "xs = y # ys"
        by (auto split: prod.splits sum.splits)
      show ?thesis
      proof (cases "f = a")
        case True
        with Inr r Some ys(2) show ?thesis by auto
      next
        case False
        with Cons.prems(2) have "f \<in> set fs" by simp
        from Cons.IH [OF ys(1) this] ys(2) show ?thesis by auto
      qed
    qed
  qed
qed

lemma set_settleOrder: "set (settleOrder lib env releaseDir files) = set files"
  by (simp add: settleOrder_def)

lemma fileTask_pushes:
  "fileTask lib env releaseDir marker build f l = Inr (Some d, l') \<longleftrightarrow>
     (\<exists>s fm c e. readParsed lib env releaseDir f = Inr (s, fm, c, e) \<and>
        \<not> (draft fm = Some True \<and> production env) \<and>
        d = build f s fm c e (fst (testMarker marker c l)) \<and>
        l' = snd (testMarker marker c l))"
  by (auto simp: fileTask_def split: sum.splits prod.splits)

lemma fileTask_result:
  assumes "fileTask lib env releaseDir marker build f l = Inr (r, l')"
    and "readParsed lib env releaseDir f = Inr (s, fm, c, e)"
    and "\<not> (draft fm = Some True \<and> production env)"
  shows "r = Some (build f s fm c e (fst (testMarker marker c l)))"
  using assms by (auto simp: fileTask_def split: sum.splits prod.splits)

lemma gather_fileTask_sound:
  assumes "gather (fileTask lib env releaseDir marker build) fs l0 = (l1, Inr docs)"
    and "d \<in> set docs"
  shows "\<exists>f\<in>set fs. \<exists>s fm c e l. readParsed lib env releaseDir f = Inr (s, fm, c, e) \<and>
        \<not> (draft fm = Some True \<and> production env) \<and>
        d = build f s fm c e (fst (testMarker marker c l))"
proof -
  from gather_sound [OF assms] obtain f l l' where
    f: "f \<in> set fs" "fileTask lib env releaseDir marker build f l = Inr (Some d, l')"
    by blast
  from f(2) obtain s fm c e where "readParsed lib env releaseDir f = Inr (s, fm, c, e)"
    "\<not> (draft fm = Some True \<and> production env)"
    "d = build f s fm c e (fst (testMarker marker c l))"
    unfolding fileTask_pushes by blast
  with f(1) show ?thesis by blast
qed

lemma gather_fileTask_complete:
  assumes "gather (fileTask lib env releaseDir marker build) fs l0 = (l1, Inr docs)"
    and "f \<in> set fs"
    and "readParsed lib env releaseDir f = Inr (s, fm, c, e)"
    and "\<not> (draft fm = Some True \<and> production env)"
  shows "\<exists>l. build f s fm c e (fst (testMarker marker c l)) \<in> set docs"
proof -
  from gather_complete [OF assms(1,2)] obtain l r l' where
    t: "fileTask lib env releaseDir marker build f l = Inr (r, l')" and
    m: "\<forall>x. r = Some x \<longrightarrow> x \<in> set docs"
    by blast
  from fileTask_result [OF t assms(3,4)] m show ?thesis by blast
qed

lemma generateReleases_exists:
  assumes "generateReleases lib env releaseDir ctx options l0 = (l1, Inr docs)"
    and "existsSync env releaseDir"
  shows "gather (fileTask lib env releaseDir (truncateMarker options)
                   (releaseOf lib releaseDir ctx options))
      (settleOrder lib env releaseDir (globby env (include' options) releaseDir)) l0 =
      (l1, Inr docs)"
  using assms by (simp only: generateReleases_def Let_def not_True_eq_False if_False simp_thms)

lemma generateHighlights_exists:
  assumes "generateHighlights lib env releaseDir ctx options l0 = (l1, Inr docs)"
    and "existsSync env releaseDir"
  shows "gather (fileTask lib env releaseDir (truncateMarker options)
                   (highlightOf lib releaseDir ctx options))
      (settleOrder lib env releaseDir
         (globby env (highlightInclude (include' options)) releaseDir)) l0 =
      (l1, Inr docs)"
  using assms by (simp only: generateHighlights_def Let_def not_True_eq_False if_False simp_thms)

lemma generateReleases_missing:
  "\<not> existsSync env releaseDir \<Longrightarrow>
     generateReleases lib env releaseDir ctx options l = (l, Inr [])"
  by (simp only: generateReleases_def if_True simp_thms)

lemma generateHighlights_missing:
  "\<not> existsSync env releaseDir \<Longrightarrow>
     generateHighlights lib env releaseDir ctx options l = (l, Inr [])"
  by (simp only: generateHighlights_def if_True simp_thms)

lemma generateReleases_sound:
  assumes "generateReleases lib env releaseDir ctx options l0 = (l1, Inr docs)"
    and "d \<in> set docs"
  shows "\<exists>f\<in>set (globby env (include' options) releaseDir). \<exists>s fm c e l.
        readParsed lib env releaseDir f = Inr (s, fm, c, e) \<and>
        \<not> (draft fm = Some True \<and> production env) \<and>
        d = releaseOf lib releaseDir ctx options f s fm c e
              (fst (testMarker (truncateMarker options) c l))"
proof (cases "existsSync env releaseDir")
  case True
  from gather_fileTask_sound [OF generateReleases_exists [OF assms(1) True] assms(2)]
  show ?thesis
    by (simp only: set_settleOrder)
next
  case False
  with assms generateReleases_missing [OF False, of lib ctx options l0] show ?thesis by simp
qed

lemma generateReleases_complete:
  assumes "generateReleases lib env releaseDir ctx options l0 = (l1, Inr docs)"
    and "existsSync env releaseDir"
    and "f \<in> set (globby env (include' options) releaseDir)"
    and "readParsed lib env releaseDir f = Inr (s, fm, c, e)"
    and "\<not> (draft fm = Some True \<and> production env)"
  shows "\<exists>l. releaseOf lib releaseDir ctx options f s fm c e
               (fst (testMarker (truncateMarker options) c l)) \<in> set docs"
proof -
  from assms(3) have "f \<in> set (settleOrder lib env releaseDir
      (globby env (include' options) releaseDir))"
    by (simp only: set_settleOrder)
  from gather_fileTask_complete [OF generateReleases_exists [OF assms(1,2)] this assms(4,5)]
  show ?thesis .
qed

lemma generateHighlights_sound:
  assumes "generateHighlights lib env releaseDir ctx options l0 = (l1, Inr docs)"
    and "d \<in> set docs"
  shows "\<exists>f\<in>set (globby env (highlightInclude (include' options)) releaseDir).
        \<exists>s fm c e l.
        readParsed lib env releaseDir f = Inr (s, fm, c, e) \<and>
        \<not> (draft fm = Some True \<and> production env) \<and>
        d = highlightOf lib releaseDir ctx options f s fm c e
              (fst (testMarker (truncateMarker options) c l))"
proof (cases "existsSync env releaseDir")
  case True
  from gather_fileTask_sound [OF generateHighlights_exists [OF assms(1) True] assms(2)]
  show ?thesis
    by (simp only: set_settleOrder)
next
  case False
  with assms generateHighlights_missing [OF False, of lib ctx options l0] show ?thesis by simp
qed

lemma generateHighlights_complete:
  assumes "generateHighlights lib env releaseDir ctx options l0 = (l1, Inr docs)"
    and "existsSync env releaseDir"
    and "f \<in> set (globby env (highlightInclude (include' options)) releaseDir)"
    and "readParsed lib env releaseDir f = Inr (s, fm, c, e)"
    and "\<not> (draft fm = Some True \<and> production env)"
  shows "\<exists>l. highlightOf lib releaseDir ctx options f s fm c e
               (fst (testMarker (truncateMarker options) c l)) \<in> set docs"
proof -
  from assms(3) have "f \<in> set (settleOrder lib env releaseDir
      (globby env (highlightInclude (include' options)) releaseDir))"
    by (simp only: set_settleOrder)
  from gather_fileTask_complete [OF generateHighlights_exists [OF assms(1,2)] this assms(4,5)]
  show ?thesis .
qed

text \<open>
  Claim C5. When the content directory does not exist, \<open>generateReleases\<close> and
  \<open>generateHighlights\<close> return the empty collection, not an error, and leave the state
  of the truncation marker as it was.
\<close>

theorem missing_directory_empty:
  assumes "\<not> existsSync env releaseDir"
  shows "generateReleases lib env releaseDir ctx options lastIndex = (lastIndex, Inr []) \<and>
         generateHighlights lib env releaseDir ctx options lastIndex = (lastIndex, Inr [])"
  using assms generateReleases_missing generateHighlights_missing by blast

theorem missing_directory_empty_witness:
  "\<not> existsSync (sampleEnv sampleFiles True) ''/site/missing'' \<and>
   generateReleases sampleLib (sampleEnv sampleFiles True) ''/site/missing'' sampleContext
     DEFAULT_OPTIONS 0 = (0, Inr []) \<and>
   generateHighlights sampleLib (sampleEnv sampleFiles True) ''/site/missing'' sampleContext
     DEFAULT_OPTIONS 0 = (0, Inr [])"
proof -
  have h: "\<not> existsSync (sampleEnv sampleFiles True) ''/site/missing''"
    by (simp add: sampleEnv_def)
  show ?thesis
    using h missing_directory_empty [OF h, of sampleLib sampleContext DEFAULT_OPTIONS 0]
    by simp
qed

lemma readParsed_draft_differs:
  assumes "readParsed lib env releaseDir f = Inr (s, fm, c, e)" and "draft fm = Some True"
    and "readParsed lib env releaseDir g = Inr (s', fm', c', e')"
    and "\<not> (draft fm' = Some True \<and> production env)" and "production env"
  shows "g \<noteq> f"
  using assms by auto

text \<open>
  Claim C4. Take a file of the scan whose front matter marks it as a draft. In a
  production build every document of the collection returned is built from another file
  of the scan, so none stems from the draft; otherwise the document built from the draft
  is in the collection. This holds for \<open>generateReleases\<close> and for
  \<open>generateHighlights\<close>. The \<open>truncated\<close> field of a document is the result of the
  test of the marker on its content, at the \<^verbatim>\<open>lastIndex\<close> the marker had then.
\<close>

theorem draft_exclusion:
  "(generateReleases lib env releaseDir ctx options l0 = (l1, Inr docs) \<and>
    existsSync env releaseDir \<and>
    f \<in> set (globby env (include' options) releaseDir) \<and>
    readParsed lib env releaseDir f = Inr (s, fm, c, e) \<and> draft fm = Some True \<longrightarrow>
      (if production env
       then \<forall>d\<in>set docs. \<exists>g\<in>set (globby env (include' options) releaseDir).
              \<exists>s' fm' c' e' l.
              g \<noteq> f \<and> readParsed lib env releaseDir g = Inr (s', fm', c', e') \<and>
              d = releaseOf lib releaseDir ctx options g s' fm' c' e'
                    (fst (testMarker (truncateMarker options) c' l))
       else \<exists>l. releaseOf lib releaseDir ctx options f s fm c e
                   (fst (testMarker (truncateMarker options) c l)) \<in> set docs)) \<and>
   (generateHighlights lib env releaseDir ctx options k0 = (k1, Inr highlights) \<and>
    existsSync env releaseDir \<and>
    h \<in> set (globby env (highlightInclude (include' options)) releaseDir) \<and>
    readParsed lib env releaseDir h = Inr (hs, hfm, hc, he) \<and> draft hfm = Some True \<longrightarrow>
      (if production env
       then \<forall>d\<in>set highlights.
              \<exists>g\<in>set (globby env (highlightInclude (include' options)) releaseDir).
              \<exists>s' fm' c' e' l.
              g \<noteq> h \<and> readParsed lib env releaseDir g = Inr (s', fm', c', e') \<and>
              d = highlightOf lib releaseDir ctx options g s' fm' c' e'
                    (fst (testMarker (truncateMarker options) c' l))
       else \<exists>l. highlightOf lib releaseDir ctx options h hs hfm hc he
                   (fst (testMarker (truncateMarker options) hc l)) \<in> set highlights))"
proof (intro conjI impI)
  assume a: "generateReleases lib env releaseDir ctx options l0 = (l1, Inr docs) \<and>
    existsSync env releaseDir \<and>
    f \<in> set (globby env (include' options) releaseDir) \<and>
    readParsed lib env releaseDir f = Inr (s, fm, c, e) \<and> draft fm = Some True"
  show "if production env
       then \<forall>d\<in>set docs. \<exists>g\<in>set (globby env (include' options) releaseDir).
              \<exists>s' fm' c' e' l.
              g \<noteq> f \<and> readParsed lib env releaseDir g = Inr (s', fm', c', e') \<and>
              d = releaseOf lib releaseDir ctx options g s' fm' c' e'
                    (fst (testMarker (truncateMarker options) c' l))
       else \<exists>l. releaseOf lib releaseDir ctx options f s fm c e
                   (fst (testMarker (truncateMarker options) c l)) \<in> set docs"
  proof (cases "production env")
    case True
    have "\<exists>g\<in>set (globby env (include' options) releaseDir). \<exists>s' fm' c' e' l.
              g \<noteq> f \<and> readParsed lib env releaseDir g = Inr (s', fm', c', e') \<and>
              d = releaseOf lib releaseDir ctx options g s' fm' c' e'
                    (fst (testMarker (truncateMarker options) c' l))" if "d \<in> set docs" for d
    proof -
      from generateReleases_sound [of lib env releaseDir ctx options l0 l1 docs d] a that
      obtain g s' fm' c' e' l where g: "g \<in> set (globby env (include' options) releaseDir)"
        "readParsed lib env releaseDir g = Inr (s', fm', c', e')"
        "\<not> (draft fm' = Some True \<and> production env)"
        "d = releaseOf lib releaseDir ctx options g s' fm' c' e'
               (fst (testMarker (truncateMarker options) c' l))"
        by blast
      from a g(2,3) True have "g \<noteq> f"
        using readParsed_draft_differs by blast
      with g show ?thesis by blast
    qed
    with True show ?thesis by simp
  next
    case False
    with a generateReleases_complete [of lib env releaseDir ctx options l0 l1 docs f s fm c e]
    show ?thesis by simp
  qed
next
  assume a: "generateHighlights lib env releaseDir ctx options k0 = (k1, Inr highlights) \<and>
    existsSync env releaseDir \<and>
    h \<in> set (globby env (highlightInclude (include' options)) releaseDir) \<and>
    readParsed lib env releaseDir h = Inr (hs, hfm, hc, he) \<and> draft hfm = Some True"
  show "if production env
       then \<forall>d\<in>set highlights.
              \<exists>g\<in>set (globby env (highlightInclude (include' options)) releaseDir).
              \<exists>s' fm' c' e' l.
              g \<noteq> h \<and> readParsed lib env releaseDir g = Inr (s', fm', c', e') \<and>
              d = highlightOf lib releaseDir ctx options g s' fm' c' e'
                    (fst (testMarker (truncateMarker options) c' l))
       else \<exists>l. highlightOf lib releaseDir ctx options h hs hfm hc he
                   (fst (testMarker (truncateMarker options) hc l)) \<in> set highlights"
  proof (cases "production env")
    case True
    have "\<exists>g\<in>set (globby env (highlightInclude (include' options)) releaseDir).
              \<exists>s' fm' c' e' l.
              g \<noteq> h \<and> readParsed lib env releaseDir g = Inr (s', fm', c', e') \<and>
              d = highlightOf lib releaseDir ctx options g s' fm' c' e'
                    (fst (testMarker (truncateMarker options) c' l))"
      if "d \<in> set highlights" for d
    proof -
      from generateHighlights_sound [of lib env releaseDir ctx options k0 k1 highlights d] a that
      obtain g s' fm' c' e' l where g:
        "g \<in> set (globby env (highlightInclude (include' options)) releaseDir)"
        "readParsed lib env releaseDir g = Inr (s', fm', c', e')"
        "\<not> (draft fm' = Some True \<and> production env)"
        "d = highlightOf lib releaseDir ctx options g s' fm' c' e'
               (fst (testMarker (truncateMarker options) c' l))"
        by blast
      from a g(2,3) True have "g \<noteq> h"
        using readParsed_draft_differs by blast
      with g show ?thesis by blast
    qed
    with True show ?thesis by simp
  next
    case False
    with a generateHighlights_complete
      [of lib env releaseDir ctx options k0 k1 highlights h hs hfm hc he]
    show ?thesis by simp
  qed
qed

theorem draft_exclusion_witness:
  "generateReleases sampleLib (sampleEnv sampleFiles True) ''/site/releases'' sampleContext
     DEFAULT_OPTIONS 0 = (0, Inr [v1Release]) \<and>
   generateHighlights sampleLib (sampleEnv sampleFiles True) ''/site/releases'' sampleContext
     DEFAULT_OPTIONS 0 = (0, Inr [fastHighlight]) \<and>
   readParsed sampleLib (sampleEnv sampleFiles True) ''/site/releases'' ''v2.md'' =
     Inr (v2Text, draftFrontMatter, ''Second release'', None) \<and>
   readParsed sampleLib (sampleEnv sampleFiles True) ''/site/releases'' ''highlights/wip.md'' =
     Inr (wipText, draftFrontMatter, ''Soon'', None) \<and>
   draft draftFrontMatter = Some True \<and>
   (\<exists>g\<in>set (globby (sampleEnv sampleFiles True) (include' DEFAULT_OPTIONS) ''/site/releases'').
      \<exists>s' fm' c' e' l. g \<noteq> ''v2.md'' \<and>
        readParsed sampleLib (sampleEnv sampleFiles True) ''/site/releases'' g =
          Inr (s', fm', c', e') \<and>
        v1Release =
          releaseOf sampleLib ''/site/releases'' sampleContext DEFAULT_OPTIONS g s' fm' c' e'
            (fst (testMarker (truncateMarker DEFAULT_OPTIONS) c' l))) \<and>
   (\<exists>g\<in>set (globby (sampleEnv sampleFiles True) (highlightInclude (include' DEFAULT_OPTIONS))
                ''/site/releases'').
      \<exists>s' fm' c' e' l. g \<noteq> ''highlights/wip.md'' \<and>
        readParsed sampleLib (sampleEnv sampleFiles True) ''/site/releases'' g =
          Inr (s', fm', c', e') \<and>
        fastHighlight =
          highlightOf sampleLib ''/site/releases'' sampleContext DEFAULT_OPTIONS g s' fm' c' e'
            (fst (testMarker (truncateMarker DEFAULT_OPTIONS) c' l))) \<and>
   generateReleases sampleLib (sampleEnv sampleFiles False) ''/site/releases'' sampleContext
     DEFAULT_OPTIONS 0 = (0, Inr [v1Release, v2Release]) \<and>
   generateHighlights sampleLib (sampleEnv sampleFiles False) ''/site/releases'' sampleContext
     DEFAULT_OPTIONS 0 = (0, Inr [fastHighlight, wipHighlight]) \<and>
   (\<exists>l. releaseOf sampleLib ''/site/releases'' sampleContext DEFAULT_OPTIONS ''v2.md'' v2Text
           draftFrontMatter ''Second release'' None
           (fst (testMarker (truncateMarker DEFAULT_OPTIONS) ''Second release'' l))
         \<in> set [v1Release, v2Release]) \<and>
   (\<exists>l. highlightOf sampleLib ''/site/releases'' sampleContext DEFAULT_OPTIONS
           ''highlights/wip.md'' wipText draftFrontMatter ''Soon'' None
           (fst (testMarker (truncateMarker DEFAULT_OPTIONS) ''Soon'' l))
         \<in> set [fastHighlight, wipHighlight])"
proof -
  have r: "generateReleases sampleLib (sampleEnv sampleFiles True) ''/site/releases''
      sampleContext DEFAULT_OPTIONS 0 = (0, Inr [v1Release])"
    by code_simp
  have h: "generateHighlights sampleLib (sampleEnv sampleFiles True) ''/site/releases''
      sampleContext DEFAULT_OPTIONS 0 = (0, Inr [fastHighlight])"
    by code_simp
  have ex: "existsSync (sampleEnv sampleFiles True) ''/site/releases''"
    by code_simp
  have rf: "''v2.md'' \<in>
      set (globby (sampleEnv sampleFiles True) (include' DEFAULT_OPTIONS) ''/site/releases'')"
    by code_simp
  have hf: "''highlights/wip.md'' \<in>
      set (globby (sampleEnv sampleFiles True) (highlightInclude (include' DEFAULT_OPTIONS))
             ''/site/releases'')"
    by code_simp
  have rp: "readParsed sampleLib (sampleEnv sampleFiles True) ''/site/releases'' ''v2.md'' =
      Inr (v2Text, draftFrontMatter, ''Second release'', None)"
    by code_simp
  have hp: "readParsed sampleLib (sampleEnv sampleFiles True) ''/site/releases''
      ''highlights/wip.md'' = Inr (wipText, draftFrontMatter, ''Soon'', None)"
    by code_simp
  have dr: "draft draftFrontMatter = Some True"
    by code_simp
  have pr: "production (sampleEnv sampleFiles True)"
    by code_simp
  note inst = draft_exclusion [of sampleLib "sampleEnv sampleFiles True" "''/site/releases''"
      sampleContext DEFAULT_OPTIONS 0 0 "[v1Release]" "''v2.md''" v2Text draftFrontMatter
      "''Second release''" None 0 0 "[fastHighlight]" "''highlights/wip.md''" wipText
      draftFrontMatter "''Soon''" None]
  from inst r ex rf rp dr pr
  have "\<forall>d\<in>set [v1Release].
      \<exists>g\<in>set (globby (sampleEnv sampleFiles True) (include' DEFAULT_OPTIONS) ''/site/releases'').
      \<exists>s' fm' c' e' l. g \<noteq> ''v2.md'' \<and>
        readParsed sampleLib (sampleEnv sampleFiles True) ''/site/releases'' g =
          Inr (s', fm', c', e') \<and>
        d = releaseOf sampleLib ''/site/releases'' sampleContext DEFAULT_OPTIONS g s' fm' c' e'
              (fst (testMarker (truncateMarker DEFAULT_OPTIONS) c' l))"
    by (simp only: simp_thms if_True; blast)
  then have c1: "\<exists>g\<in>set (globby (sampleEnv sampleFiles True) (include' DEFAULT_OPTIONS)
                       ''/site/releases'').
      \<exists>s' fm' c' e' l. g \<noteq> ''v2.md'' \<and>
        readParsed sampleLib (sampleEnv sampleFiles True) ''/site/releases'' g =
          Inr (s', fm', c', e') \<and>
        v1Release =
          releaseOf sampleLib ''/site/releases'' sampleContext DEFAULT_OPTIONS g s' fm' c' e'
            (fst (testMarker (truncateMarker DEFAULT_OPTIONS) c' l))"
    by (rule bspec) simp
  from inst h ex hf hp dr pr
  have "\<forall>d\<in>set [fastHighlight].
      \<exists>g\<in>set (globby (sampleEnv sampleFiles True) (highlightInclude (include' DEFAULT_OPTIONS))
                ''/site/releases'').
      \<exists>s' fm' c' e' l. g \<noteq> ''highlights/wip.md'' \<and>
        readParsed sampleLib (sampleEnv sampleFiles True) ''/site/releases'' g =
          Inr (s', fm', c', e') \<and>
        d = highlightOf sampleLib ''/site/releases'' sampleContext DEFAULT_OPTIONS g s' fm' c' e'
              (fst (testMarker (truncateMarker DEFAULT_OPTIONS) c' l))"
    by (simp only: simp_thms if_True; blast)
  then have c2: "\<exists>g\<in>set (globby (sampleEnv sampleFiles True)
                       (highlightInclude (include' DEFAULT_OPTIONS)) ''/site/releases'').
      \<exists>s' fm' c' e' l. g \<noteq> ''highlights/wip.md'' \<and>
        readParsed sampleLib (sampleEnv sampleFiles True) ''/site/releases'' g =
          Inr (s', fm', c', e') \<and>
        fastHighlight =
          highlightOf sampleLib ''/site/releases'' sampleContext DEFAULT_OPTIONS g s' fm' c' e'
            (fst (testMarker (truncateMarker DEFAULT_OPTIONS) c' l))"
    by (rule bspec) simp
  have r': "generateReleases sampleLib (sampleEnv sampleFiles False) ''/site/releases''
      sampleContext DEFAULT_OPTIONS 0 = (0, Inr [v1Release, v2Release])"
    by code_simp
  have h': "generateHighlights sampleLib (sampleEnv sampleFiles False) ''/site/releases''
      sampleContext DEFAULT_OPTIONS 0 = (0, Inr [fastHighlight, wipHighlight])"
    by code_simp
  have ex': "existsSync (sampleEnv sampleFiles False) ''/site/releases''"
    by code_simp
  have rf': "''v2.md'' \<in>
      set (globby (sampleEnv sampleFiles False) (include' DEFAULT_OPTIONS) ''/site/releases'')"
    by code_simp
  have hf': "''highlights/wip.md'' \<in>
      set (globby (sampleEnv sampleFiles False) (highlightInclude (include' DEFAULT_OPTIONS))
             ''/site/releases'')"
    by code_simp
  have rp': "readParsed sampleLib (sampleEnv sampleFiles False) ''/site/releases'' ''v2.md'' =
      Inr (v2Text, draftFrontMatter, ''Second release'', None)"
    by code_simp
  have hp': "readParsed sampleLib (sampleEnv sampleFiles False) ''/site/releases''
      ''highlights/wip.md'' = Inr (wipText, draftFrontMatter, ''Soon'', None)"
    by code_simp
  have pr': "\<not> production (sampleEnv sampleFiles False)"
    by code_simp
  note inst' = draft_exclusion [of sampleLib "sampleEnv sampleFiles False" "''/site/releases''"
      sampleContext DEFAULT_OPTIONS 0 0 "[v1Release, v2Release]" "''v2.md''" v2Text
      draftFrontMatter "''Second release''" None 0 0 "[fastHighlight, wipHighlight]"
      "''highlights/wip.md''" wipText draftFrontMatter "''Soon''" None]
  from inst' r' ex' rf' rp' dr pr'
  have c3: "\<exists>l. releaseOf sampleLib ''/site/releases'' sampleContext DEFAULT_OPTIONS ''v2.md''
           v2Text draftFrontMatter ''Second release'' None
           (fst (testMarker (truncateMarker DEFAULT_OPTIONS) ''Second release'' l))
         \<in> set [v1Release, v2Release]"
    by (simp only: simp_thms if_False; blast)
  from inst' h' ex' hf' hp' dr pr'
  have c4: "\<exists>l. highlightOf sampleLib ''/site/releases'' sampleContext DEFAULT_OPTIONS
           ''highlights/wip.md'' wipText draftFrontMatter ''Soon'' None
           (fst (testMarker (truncateMarker DEFAULT_OPTIONS) ''Soon'' l))
         \<in> set [fastHighlight, wipHighlight]"
    by (simp only: simp_thms if_False; blast)
  from r h rp hp dr c1 c2 r' h' c3 c4 show ?thesis
    by (intro conjI)
qed

lemma test_unflagged:
  assumes "\<not> global re" and "\<not> sticky re"
  shows "test re s l = (matchesSomewhere re s, l)"
  using assms by (simp add: test_def matchesSomewhere_def split: option.splits)

text \<open>
  With no marker, or with a marker that has neither the global nor the sticky flag (the
  default one), the \<open>truncated\<close> field of every document of the collection tells whether
  a marker is configured and matches in the content of the document's file.
\<close>

lemma testMarker_unflagged:
  assumes "\<And>re. marker = Some re \<Longrightarrow> \<not> global re \<and> \<not> sticky re"
  shows "fst (testMarker marker c l) \<longleftrightarrow> (\<exists>re. marker = Some re \<and> matchesSomewhere re c)"
  using assms by (cases marker) (simp_all add: testMarker_def test_unflagged)

lemma truncated_unflagged:
  assumes "generateReleases lib env releaseDir ctx options l0 = (l1, Inr docs)"
    and "\<And>re. truncateMarker options = Some re \<Longrightarrow> \<not> global re \<and> \<not> sticky re"
    and "d \<in> set docs"
  shows "\<exists>f\<in>set (globby env (include' options) releaseDir). \<exists>s fm c e.
     readParsed lib env releaseDir f = Inr (s, fm, c, e) \<and>
     MetaData.source (metadata d) =
       aliasedSitePath lib (path_join lib releaseDir f) (siteDir ctx) \<and>
     (truncated (metadata d) \<longleftrightarrow>
        (\<exists>re. truncateMarker options = Some re \<and> matchesSomewhere re c))"
proof -
  from generateReleases_sound [OF assms(1,3)] obtain f s fm c e l where
    f: "f \<in> set (globby env (include' options) releaseDir)"
      "readParsed lib env releaseDir f = Inr (s, fm, c, e)" and
    d: "d = releaseOf lib releaseDir ctx options f s fm c e
              (fst (testMarker (truncateMarker options) c l))"
    by blast
  have t: "truncated (metadata d) \<longleftrightarrow>
      (\<exists>re. truncateMarker options = Some re \<and> matchesSomewhere re c)"
    unfolding d using testMarker_unflagged [OF assms(2), where c = c and l = l]
    by (simp add: releaseOf_def Let_def)
  have "MetaData.source (metadata d) =
      aliasedSitePath lib (path_join lib releaseDir f) (siteDir ctx)"
    unfolding d by (simp add: releaseOf_def Let_def)
  with f t show ?thesis by blast
qed

lemma highlight_truncated_unflagged:
  assumes "generateHighlights lib env releaseDir ctx options l0 = (l1, Inr docs)"
    and "\<And>re. truncateMarker options = Some re \<Longrightarrow> \<not> global re \<and> \<not> sticky re"
    and "d \<in> set docs"
  shows "\<exists>f\<in>set (globby env (highlightInclude (include' options)) releaseDir). \<exists>s fm c e.
     readParsed lib env releaseDir f = Inr (s, fm, c, e) \<and>
     MetaData.source (metadata d) =
       aliasedSitePath lib (path_join lib releaseDir f) (siteDir ctx) \<and>
     (truncated (metadata d) \<longleftrightarrow>
        (\<exists>re. truncateMarker options = Some re \<and> matchesSomewhere re c))"
proof -
  from generateHighlights_sound [OF assms(1,3)] obtain f s fm c e l where
    f: "f \<in> set (globby env (highlightInclude (include' options)) releaseDir)"
      "readParsed lib env releaseDir f = Inr (s, fm, c, e)" and
    d: "d = highlightOf lib releaseDir ctx options f s fm c e
              (fst (testMarker (truncateMarker options) c l))"
    by blast
  have t: "truncated (metadata d) \<longleftrightarrow>
      (\<exists>re. truncateMarker options = Some re \<and> matchesSomewhere re c)"
    unfolding d using testMarker_unflagged [OF assms(2), where c = c and l = l]
    by (simp add: highlightOf_def Let_def)
  have "MetaData.source (metadata d) =
      aliasedSitePath lib (path_join lib releaseDir f) (siteDir ctx)"
    unfolding d by (simp add: highlightOf_def Let_def)
  with f t show ?thesis by blast
qed

text \<open>
  Claim C6 fails on the code when the configured marker has the global flag: the one
  \<^verbatim>\<open>RegExp\<close> object is tested on every file and keeps its \<^verbatim>\<open>lastIndex\<close>. With
  \<^verbatim>\<open>/<!--\s*(truncate)\s*-->/g\<close> and the files \<^verbatim>\<open>a.md\<close> and \<^verbatim>\<open>b.md\<close>, the test on
  \<^verbatim>\<open>a.md\<close> leaves \<^verbatim>\<open>lastIndex\<close> at 19, behind the end of the content of
  \<^verbatim>\<open>b.md\<close>, so the document of \<^verbatim>\<open>b.md\<close> has \<open>truncated\<close> false although the marker
  matches in its content. When the read of \<^verbatim>\<open>b.md\<close> settles first, it is the document of
  \<^verbatim>\<open>a.md\<close> that has \<open>truncated\<close> false.
\<close>

theorem truncated_misses_marker:
  "globby (sampleEnv markedFiles False) (include' globalMarkerOptions) ''/site/releases'' =
     [''a.md'', ''b.md''] \<and>
   readParsed sampleLib (sampleEnv markedFiles False) ''/site/releases'' ''b.md'' =
     Inr (markedText, noFrontMatter, markedText, None) \<and>
   truncateMarker globalMarkerOptions = Some (defaultTruncateMarker\<lparr>global := True\<rparr>) \<and>
   matchesSomewhere (defaultTruncateMarker\<lparr>global := True\<rparr>) markedText \<and>
   test (defaultTruncateMarker\<lparr>global := True\<rparr>) ''A <!-- truncate -->'' 0 = (True, 19) \<and>
   test (defaultTruncateMarker\<lparr>global := True\<rparr>) markedText 19 = (False, 0) \<and>
   (case generateReleases sampleLib (sampleEnv markedFiles False) ''/site/releases''
           sampleContext globalMarkerOptions 0 of
      (l, Inl err) \<Rightarrow> False
    | (l, Inr docs) \<Rightarrow>
        l = 0 \<and>
        map (\<lambda>d. (MetaData.source (metadata d), truncated (metadata d))) docs =
          [(''@site/releases/a.md'', True), (''@site/releases/b.md'', False)]) \<and>
   (case generateReleases sampleLib
           ((sampleEnv markedFiles False)
              \<lparr>completion := (\<lambda>p. if p = ''/site/releases/a.md'' then 1 else 0)\<rparr>)
           ''/site/releases'' sampleContext globalMarkerOptions 0 of
      (l, Inl err) \<Rightarrow> False
    | (l, Inr docs) \<Rightarrow>
        l = 0 \<and>
        map (\<lambda>d. (MetaData.source (metadata d), truncated (metadata d))) docs =
          [(''@site/releases/b.md'', True), (''@site/releases/a.md'', False)])"
proof -
  have files: "globby (sampleEnv markedFiles False) (include' globalMarkerOptions)
      ''/site/releases'' = [''a.md'', ''b.md'']"
    by code_simp
  have parsed: "readParsed sampleLib (sampleEnv markedFiles False) ''/site/releases'' ''b.md'' =
      Inr (markedText, noFrontMatter, markedText, None)"
    by code_simp
  have marker: "truncateMarker globalMarkerOptions =
      Some (defaultTruncateMarker\<lparr>global := True\<rparr>)"
    by (simp add: globalMarkerOptions_def)
  have found: "matchesSomewhere (defaultTruncateMarker\<lparr>global := True\<rparr>) markedText"
    by code_simp
  have first: "test (defaultTruncateMarker\<lparr>global := True\<rparr>) ''A <!-- truncate -->'' 0 =
      (True, 19)"
    by code_simp
  have second: "test (defaultTruncateMarker\<lparr>global := True\<rparr>) markedText 19 = (False, 0)"
    by code_simp
  have run: "case generateReleases sampleLib (sampleEnv markedFiles False) ''/site/releases''
           sampleContext globalMarkerOptions 0 of
      (l, Inl err) \<Rightarrow> False
    | (l, Inr docs) \<Rightarrow>
        l = 0 \<and>
        map (\<lambda>d. (MetaData.source (metadata d), truncated (metadata d))) docs =
          [(''@site/releases/a.md'', True), (''@site/releases/b.md'', False)]"
    by code_simp
  have other: "case generateReleases sampleLib
           ((sampleEnv markedFiles False)
              \<lparr>completion := (\<lambda>p. if p = ''/site/releases/a.md'' then 1 else 0)\<rparr>)
           ''/site/releases'' sampleContext globalMarkerOptions 0 of
      (l, Inl err) \<Rightarrow> False
    | (l, Inr docs) \<Rightarrow>
        l = 0 \<and>
        map (\<lambda>d. (MetaData.source (metadata d), truncated (metadata d))) docs =
          [(''@site/releases/b.md'', True), (''@site/releases/a.md'', False)]"
    by code_simp
  from files parsed marker found first second run other show ?thesis
    by (intro conjI)
qed

text \<open>
  Claim C3, as stated, fails: the files \<^verbatim>\<open>a.md\<close> and \<^verbatim>\<open>a.mdx\<close> of one directory
  give two documents with the same permalink.
\<close>

theorem permalinks_not_distinct:
  "generateReleases sampleLib (sampleEnv twinFiles True) ''/site/releases'' sampleContext
     DEFAULT_OPTIONS 0 = (0, Inr [twinMd, twinMdx]) \<and>
   twinMd \<noteq> twinMdx \<and>
   MetaData.permalink (metadata twinMd) = ''/releases-new/a'' \<and>
   MetaData.permalink (metadata twinMdx) = ''/releases-new/a''"
  by code_simp

lemma gather_image:
  assumes "gather task fs l0 = (l1, Inr xs)"
    and "\<And>f l x l'. f \<in> set fs \<Longrightarrow> task f l = Inr (Some x, l') \<Longrightarrow> p x = u f"
    and "distinct fs" and "inj_on u (set fs)"
  shows "distinct (map p xs) \<and> p ` set xs \<subseteq> u ` set fs"
  using assms
proof (induction fs arbitrary: xs l0)
  case Nil
  then show ?case by simp
next
  case (Cons f fs)
  from Cons.prems(3) have d: "distinct fs" and nf: "f \<notin> set fs" by simp_all
  from Cons.prems(4) have i: "inj_on u (set fs)" by (simp add: inj_on_def)
  have pu: "p x = u g" if "g \<in> set fs" "task g l = Inr (Some x, l')" for g l x l'
    using Cons.prems(2) [of g l x l'] that by simp
  show ?case
  proof (cases "task f l0")
    case (Inl e)
    with Cons.prems(1) show ?thesis by (simp split: prod.splits)
  next
    case (Inr r)
    obtain opt l' where r: "r = (opt, l')" by (cases r)
    show ?thesis
    proof (cases opt)
      case None
      with Inr r Cons.prems(1) have g: "gather task fs l' = (l1, Inr xs)" by simp
      have "distinct (map p xs) \<and> p ` set xs \<subseteq> u ` set fs"
        by (rule Cons.IH [OF g _ d i]) (erule (1) pu)
      then show ?thesis by auto
    next
      case (Some y)
      with Inr r Cons.prems(1) obtain ys where
        ys: "gather task fs l' = (l1, Inr ys)" "xs = y # ys"
        by (auto split: prod.splits sum.splits)
      have "distinct (map p ys) \<and> p ` set ys \<subseteq> u ` set fs"
        by (rule Cons.IH [OF ys(1) _ d i]) (erule (1) pu)
      then have ih: "distinct (map p ys)" "p ` set ys \<subseteq> u ` set fs" by simp_all
      have py: "p y = u f"
        using Cons.prems(2) [of f l0 y l'] Inr r Some by simp
      have "u f \<notin> u ` set fs"
        using Cons.prems(4) nf by (auto simp: inj_on_def)
      with ih(2) py have "p y \<notin> p ` set ys" by auto
      with ih py ys(2) show ?thesis by auto
    qed
  qed
qed

lemma distinct_settleOrder:
  "distinct (settleOrder lib env releaseDir files) = distinct files"
  by (simp add: settleOrder_def)

lemma fileTask_key:
  assumes "fileTask lib env releaseDir marker build f l = Inr r"
  shows "\<exists>k. fileKey lib env releaseDir f = Some k"
  using assms by (auto simp: fileTask_def fileKey_def split: sum.splits)

text \<open>The permalinks of a gathered batch, under the conditions that make them distinct.\<close>

lemma gather_distinct_permalinks:
  assumes g: "gather (fileTask lib env releaseDir marker build)
      (settleOrder lib env releaseDir files) l0 = (l1, Inr docs)"
    and p: "\<And>f s fm c e t. MetaData.permalink (metadata (build f s fm c e t)) =
      normalizeUrl lib [b, r, js_or_str (FrontMatter.id' fm) (stripMdExt f)]"
    and d: "distinct files"
    and k: "inj_on (fileKey lib env releaseDir) (set files)"
    and n: "inj_on (\<lambda>k. normalizeUrl lib [b, r, k])
              {k. \<exists>f\<in>set files. fileKey lib env releaseDir f = Some k}"
  shows "distinct (map (\<lambda>d. MetaData.permalink (metadata d)) docs)"
proof -
  let ?order = "settleOrder lib env releaseDir files"
  let ?task = "fileTask lib env releaseDir marker build"
  let ?u = "\<lambda>f. case fileKey lib env releaseDir f of
      None \<Rightarrow> [] | Some k \<Rightarrow> normalizeUrl lib [b, r, k]"
  have pu: "MetaData.permalink (metadata x) = ?u f" if "?task f l = Inr (Some x, l')"
    for f l x l'
    using that by (auto simp: fileTask_def fileKey_def p split: sum.splits if_splits prod.splits)
  have ok: "\<exists>k. fileKey lib env releaseDir f = Some k" if "f \<in> set files" for f
  proof -
    from that have "f \<in> set ?order" by (simp add: set_settleOrder)
    from gather_complete [OF g this] show ?thesis
      using fileTask_key by blast
  qed
  have "inj_on ?u (set files)"
  proof (rule inj_onI)
    fix f1 f2
    assume f: "f1 \<in> set files" "f2 \<in> set files" and u: "?u f1 = ?u f2"
    from ok f obtain k1 k2 where ks: "fileKey lib env releaseDir f1 = Some k1"
      "fileKey lib env releaseDir f2 = Some k2"
      by blast
    with u have "normalizeUrl lib [b, r, k1] = normalizeUrl lib [b, r, k2]" by simp
    moreover from f ks have "k1 \<in> {k. \<exists>f\<in>set files. fileKey lib env releaseDir f = Some k}"
      "k2 \<in> {k. \<exists>f\<in>set files. fileKey lib env releaseDir f = Some k}"
      by blast+
    ultimately have "k1 = k2"
      using n by (auto dest: inj_onD)
    with ks have "fileKey lib env releaseDir f1 = fileKey lib env releaseDir f2" by simp
    with k f show "f1 = f2"
      by (simp add: inj_on_def)
  qed
  then have i: "inj_on ?u (set ?order)"
    by (simp only: set_settleOrder)
  have "distinct ?order"
    using d by (simp add: distinct_settleOrder)
  have "distinct (map (\<lambda>d. MetaData.permalink (metadata d)) docs) \<and>
      (\<lambda>d. MetaData.permalink (metadata d)) ` set docs \<subseteq> ?u ` set ?order"
    using \<open>distinct ?order\<close> i by (intro gather_image [OF g]) (erule pu)
  then show ?thesis ..
qed

lemma releaseOf_permalink:
  "MetaData.permalink (metadata (releaseOf lib releaseDir ctx options f s fm c e t)) =
     normalizeUrl lib [baseUrlOf ctx, routeBasePath options,
                       js_or_str (FrontMatter.id' fm) (stripMdExt f)]"
  by (simp add: releaseOf_def Let_def)

lemma highlightOf_permalink:
  "MetaData.permalink (metadata (highlightOf lib releaseDir ctx options f s fm c e t)) =
     normalizeUrl lib [baseUrlOf ctx, routeBasePath options,
                       js_or_str (FrontMatter.id' fm) (stripMdExt f)]"
  by (simp add: highlightOf_def Let_def)

text \<open>
  Claim C3, amended. Every document of a collection returned by \<open>generateReleases\<close> or
  \<open>generateHighlights\<close> is built from a file of the scan, and its permalink is
  \<open>normalizeUrl\<close> of the base URL, the route prefix and the key of the file: the front
  matter id or, when the id is absent or empty, the relative path of the file without its
  markdown extension. The permalinks of the collection are pairwise distinct when the scan
  lists no file twice, the files have pairwise distinct keys and \<open>normalizeUrl\<close> maps
  these keys to distinct URLs.
\<close>

theorem permalink_derivation:
  "(generateReleases lib env releaseDir ctx options l0 = (l1, Inr docs) \<and> d \<in> set docs \<longrightarrow>
      (\<exists>f\<in>set (globby env (include' options) releaseDir). \<exists>s fm c e l.
         readParsed lib env releaseDir f = Inr (s, fm, c, e) \<and>
         d = releaseOf lib releaseDir ctx options f s fm c e
               (fst (testMarker (truncateMarker options) c l)) \<and>
         MetaData.permalink (metadata d) =
           normalizeUrl lib [baseUrlOf ctx, routeBasePath options,
                             js_or_str (FrontMatter.id' fm) (stripMdExt f)])) \<and>
   (generateReleases lib env releaseDir ctx options l0 = (l1, Inr docs) \<and>
    distinct (globby env (include' options) releaseDir) \<and>
    inj_on (fileKey lib env releaseDir) (set (globby env (include' options) releaseDir)) \<and>
    inj_on (\<lambda>k. normalizeUrl lib [baseUrlOf ctx, routeBasePath options, k])
      {k. \<exists>f\<in>set (globby env (include' options) releaseDir).
            fileKey lib env releaseDir f = Some k} \<longrightarrow>
      distinct (map (\<lambda>d. MetaData.permalink (metadata d)) docs)) \<and>
   (generateHighlights lib env releaseDir ctx options k0 = (k1, Inr highlights) \<and>
    h \<in> set highlights \<longrightarrow>
      (\<exists>f\<in>set (globby env (highlightInclude (include' options)) releaseDir). \<exists>s fm c e l.
         readParsed lib env releaseDir f = Inr (s, fm, c, e) \<and>
         h = highlightOf lib releaseDir ctx options f s fm c e
               (fst (testMarker (truncateMarker options) c l)) \<and>
         MetaData.permalink (metadata h) =
           normalizeUrl lib [baseUrlOf ctx, routeBasePath options,
                             js_or_str (FrontMatter.id' fm) (stripMdExt f)])) \<and>
   (generateHighlights lib env releaseDir ctx options k0 = (k1, Inr highlights) \<and>
    distinct (globby env (highlightInclude (include' options)) releaseDir) \<and>
    inj_on (fileKey lib env releaseDir)
      (set (globby env (highlightInclude (include' options)) releaseDir)) \<and>
    inj_on (\<lambda>k. normalizeUrl lib [baseUrlOf ctx, routeBasePath options, k])
      {k. \<exists>f\<in>set (globby env (highlightInclude (include' options)) releaseDir).
            fileKey lib env releaseDir f = Some k} \<longrightarrow>
      distinct (map (\<lambda>d. MetaData.permalink (metadata d)) highlights))"
proof (intro conjI impI)
  assume a: "generateReleases lib env releaseDir ctx options l0 = (l1, Inr docs) \<and>
    d \<in> set docs"
  from generateReleases_sound [of lib env releaseDir ctx options l0 l1 docs d] a
  obtain f s fm c e l where f: "f \<in> set (globby env (include' options) releaseDir)"
    "readParsed lib env releaseDir f = Inr (s, fm, c, e)"
    "d = releaseOf lib releaseDir ctx options f s fm c e
           (fst (testMarker (truncateMarker options) c l))"
    by blast
  from f(3) have "MetaData.permalink (metadata d) =
      normalizeUrl lib [baseUrlOf ctx, routeBasePath options,
                        js_or_str (FrontMatter.id' fm) (stripMdExt f)]"
    by (simp only: releaseOf_permalink)
  with f
  show "\<exists>f\<in>set (globby env (include' options) releaseDir). \<exists>s fm c e l.
         readParsed lib env releaseDir f = Inr (s, fm, c, e) \<and>
         d = releaseOf lib releaseDir ctx options f s fm c e
               (fst (testMarker (truncateMarker options) c l)) \<and>
         MetaData.permalink (metadata d) =
           normalizeUrl lib [baseUrlOf ctx, routeBasePath options,
                             js_or_str (FrontMatter.id' fm) (stripMdExt f)]"
    by blast
next
  assume a: "generateHighlights lib env releaseDir ctx options k0 = (k1, Inr highlights) \<and>
    h \<in> set highlights"
  from generateHighlights_sound [of lib env releaseDir ctx options k0 k1 highlights h] a
  obtain f s fm c e l where
    f: "f \<in> set (globby env (highlightInclude (include' options)) releaseDir)"
    "readParsed lib env releaseDir f = Inr (s, fm, c, e)"
    "h = highlightOf lib releaseDir ctx options f s fm c e
           (fst (testMarker (truncateMarker options) c l))"
    by blast
  from f(3) have "MetaData.permalink (metadata h) =
      normalizeUrl lib [baseUrlOf ctx, routeBasePath options,
                        js_or_str (FrontMatter.id' fm) (stripMdExt f)]"
    by (simp only: highlightOf_permalink)
  with f
  show "\<exists>f\<in>set (globby env (highlightInclude (include' options)) releaseDir). \<exists>s fm c e l.
         readParsed lib env releaseDir f = Inr (s, fm, c, e) \<and>
         h = highlightOf lib releaseDir ctx options f s fm c e
               (fst (testMarker (truncateMarker options) c l)) \<and>
         MetaData.permalink (metadata h) =
           normalizeUrl lib [baseUrlOf ctx, routeBasePath options,
                             js_or_str (FrontMatter.id' fm) (stripMdExt f)]"
    by blast
next
  assume a: "generateReleases lib env releaseDir ctx options l0 = (l1, Inr docs) \<and>
    distinct (globby env (include' options) releaseDir) \<and>
    inj_on (fileKey lib env releaseDir) (set (globby env (include' options) releaseDir)) \<and>
    inj_on (\<lambda>k. normalizeUrl lib [baseUrlOf ctx, routeBasePath options, k])
      {k. \<exists>f\<in>set (globby env (include' options) releaseDir).
            fileKey lib env releaseDir f = Some k}"
  show "distinct (map (\<lambda>d. MetaData.permalink (metadata d)) docs)"
  proof (cases "existsSync env releaseDir")
    case True
    from a have g: "generateReleases lib env releaseDir ctx options l0 = (l1, Inr docs)" ..
    from a show ?thesis
      by (intro gather_distinct_permalinks
            [OF generateReleases_exists [OF g True] releaseOf_permalink])
        (elim conjE, assumption)+
  next
    case False
    with a generateReleases_missing [OF False, of lib ctx options l0] show ?thesis by simp
  qed
next
  assume a: "generateHighlights lib env releaseDir ctx options k0 = (k1, Inr highlights) \<and>
    distinct (globby env (highlightInclude (include' options)) releaseDir) \<and>
    inj_on (fileKey lib env releaseDir)
      (set (globby env (highlightInclude (include' options)) releaseDir)) \<and>
    inj_on (\<lambda>k. normalizeUrl lib [baseUrlOf ctx, routeBasePath options, k])
      {k. \<exists>f\<in>set (globby env (highlightInclude (include' options)) releaseDir).
            fileKey lib env releaseDir f = Some k}"
  show "distinct (map (\<lambda>d. MetaData.permalink (metadata d)) highlights)"
  proof (cases "existsSync env releaseDir")
    case True
    from a have g: "generateHighlights lib env releaseDir ctx options k0 = (k1, Inr highlights)" ..
    from a show ?thesis
      by (intro gather_distinct_permalinks
            [OF generateHighlights_exists [OF g True] highlightOf_permalink])
        (elim conjE, assumption)+
  next
    case False
    with a generateHighlights_missing [OF False, of lib ctx options k0] show ?thesis by simp
  qed
qed

theorem permalink_derivation_witness:
  "generateReleases sampleLib (sampleEnv sampleFiles False) ''/site/releases'' sampleContext
     DEFAULT_OPTIONS 0 = (0, Inr [v1Release, v2Release]) \<and>
   globby (sampleEnv sampleFiles False) (include' DEFAULT_OPTIONS) ''/site/releases'' =
     [''v1.md'', ''v2.md''] \<and>
   fileKey sampleLib (sampleEnv sampleFiles False) ''/site/releases'' ''v1.md'' = Some ''v1'' \<and>
   fileKey sampleLib (sampleEnv sampleFiles False) ''/site/releases'' ''v2.md'' = Some ''v2'' \<and>
   (\<exists>f\<in>set (globby (sampleEnv sampleFiles False) (include' DEFAULT_OPTIONS) ''/site/releases'').
      \<exists>s fm c e l.
        readParsed sampleLib (sampleEnv sampleFiles False) ''/site/releases'' f =
          Inr (s, fm, c, e) \<and>
        v2Release =
          releaseOf sampleLib ''/site/releases'' sampleContext DEFAULT_OPTIONS f s fm c e
            (fst (testMarker (truncateMarker DEFAULT_OPTIONS) c l)) \<and>
        MetaData.permalink (metadata v2Release) =
          normalizeUrl sampleLib [baseUrlOf sampleContext, routeBasePath DEFAULT_OPTIONS,
                                  js_or_str (FrontMatter.id' fm) (stripMdExt f)]) \<and>
   distinct (map (\<lambda>d. MetaData.permalink (metadata d)) [v1Release, v2Release])"
proof -
  let ?env = "sampleEnv sampleFiles False"
  let ?N = "\<lambda>k. normalizeUrl sampleLib [baseUrlOf sampleContext, routeBasePath DEFAULT_OPTIONS, k]"
  have r: "generateReleases sampleLib ?env ''/site/releases'' sampleContext DEFAULT_OPTIONS 0 =
      (0, Inr [v1Release, v2Release])"
    by code_simp
  have files: "globby ?env (include' DEFAULT_OPTIONS) ''/site/releases'' = [''v1.md'', ''v2.md'']"
    by code_simp
  have k1: "fileKey sampleLib ?env ''/site/releases'' ''v1.md'' = Some ''v1''"
    by code_simp
  have k2: "fileKey sampleLib ?env ''/site/releases'' ''v2.md'' = Some ''v2''"
    by code_simp
  have u: "?N ''v1'' \<noteq> ?N ''v2''"
    by code_simp
  have keys: "{k. \<exists>f\<in>set (globby ?env (include' DEFAULT_OPTIONS) ''/site/releases'').
      fileKey sampleLib ?env ''/site/releases'' f = Some k} = {''v1'', ''v2''}"
    unfolding files using k1 k2 by auto
  have d: "distinct (globby ?env (include' DEFAULT_OPTIONS) ''/site/releases'')"
    unfolding files by simp
  have i1: "inj_on (fileKey sampleLib ?env ''/site/releases'')
      (set (globby ?env (include' DEFAULT_OPTIONS) ''/site/releases''))"
    unfolding files by (simp add: k1 k2)
  have i2: "inj_on ?N {k. \<exists>f\<in>set (globby ?env (include' DEFAULT_OPTIONS) ''/site/releases'').
      fileKey sampleLib ?env ''/site/releases'' f = Some k}"
    unfolding keys using u by simp
  have m: "v2Release \<in> set [v1Release, v2Release]"
    by simp
  note inst = permalink_derivation [where lib = sampleLib and env = ?env
      and releaseDir = "''/site/releases''" and ctx = sampleContext and options = DEFAULT_OPTIONS
      and ?l0.0 = 0 and ?l1.0 = 0 and docs = "[v1Release, v2Release]" and d = v2Release]
  from inst r m
  have c1: "\<exists>f\<in>set (globby ?env (include' DEFAULT_OPTIONS) ''/site/releases'').
      \<exists>s fm c e l.
        readParsed sampleLib ?env ''/site/releases'' f = Inr (s, fm, c, e) \<and>
        v2Release =
          releaseOf sampleLib ''/site/releases'' sampleContext DEFAULT_OPTIONS f s fm c e
            (fst (testMarker (truncateMarker DEFAULT_OPTIONS) c l)) \<and>
        MetaData.permalink (metadata v2Release) =
          normalizeUrl sampleLib [baseUrlOf sampleContext, routeBasePath DEFAULT_OPTIONS,
                                  js_or_str (FrontMatter.id' fm) (stripMdExt f)]"
    by blast
  from inst r d i1 i2
  have c2: "distinct (map (\<lambda>d. MetaData.permalink (metadata d)) [v1Release, v2Release])"
    by blast
  from r files k1 k2 c1 c2 show ?thesis
    by (intro conjI)
qed
section \<open>Properties of the sequence linker\<close>

lemma paginatorOf_relink [simp]: "paginatorOf (relink h0 rs i item) = paginatorOf item"
  by (simp add: relink_def paginatorOf_def)

lemma paginatorOf_setPrevItem [simp]:
  "paginatorOf (setPrevItem r q g x) = paginatorOf (g x)"
  by (simp add: setPrevItem_def paginatorOf_def)

lemma paginatorOf_setNextItem [simp]:
  "paginatorOf (setNextItem r q g x) = paginatorOf (g x)"
  by (simp add: setNextItem_def paginatorOf_def)

lemma linkAt_relink:
  assumes "\<And>x. paginatorOf (g x) = paginatorOf (h0 x)"
  shows "linkAt rs i g = g(rs ! i := relink h0 rs i (g (rs ! i)))"
proof -
  define p where "p = paginatorOf (h0 (rs ! (i - 1)))"
  define n where "n = paginatorOf (h0 (rs ! (i + 1)))"
  define h1 where "h1 = (if i > 0 then setPrevItem (rs ! i) p g else g)"
  have "linkAt rs i g =
      (if int i < int (length rs) - 1 then setNextItem (rs ! i) n h1 else h1)"
    by (simp add: linkAt_def Let_def h1_def p_def n_def assms)
  also have "\<dots> = g(rs ! i := relink h0 rs i (g (rs ! i)))"
    by (rule ext)
      (simp add: h1_def relink_def setPrevItem_def setNextItem_def p_def n_def)
  finally show ?thesis .
qed

lemma fold_upd_cell:
  "(fold (\<lambda>i g. g(rs ! i := f i (g (rs ! i)))) is g) x =
     fold (\<lambda>i c. if rs ! i = x then f i c else c) is (g x)"
  by (induction "is" arbitrary: g) simp_all

lemma fold_linkAt:
  assumes "\<And>x. paginatorOf (g x) = paginatorOf (h0 x)"
  shows "fold (linkAt rs) is g = fold (\<lambda>i g. g(rs ! i := relink h0 rs i (g (rs ! i)))) is g"
  using assms
proof (induction "is" arbitrary: g)
  case Nil
  then show ?case by simp
next
  case (Cons i "is")
  have step: "linkAt rs i g = g(rs ! i := relink h0 rs i (g (rs ! i)))"
    using Cons.prems by (rule linkAt_relink)
  have "paginatorOf ((g(rs ! i := relink h0 rs i (g (rs ! i)))) x) = paginatorOf (h0 x)" for x
    using Cons.prems [of x] Cons.prems [of "rs ! i"] by simp
  from Cons.IH [OF this] show ?case
    unfolding fold_simps comp_apply step .
qed

lemma colocate_cell:
  "colocate rs h x = fold (\<lambda>i c. if rs ! i = x then relink h rs i c else c) [0..<length rs] (h x)"
  unfolding colocate_def by (simp only: fold_linkAt [of h h] fold_upd_cell)

lemma cell_fold_skip:
  "(\<And>i. i \<in> set is \<Longrightarrow> rs ! i \<noteq> x) \<Longrightarrow>
   fold (\<lambda>i c. if rs ! i = x then f i c else c) is c = c"
  by (induction "is" arbitrary: c) simp_all

lemma colocate_outside:
  assumes "x \<notin> set rs"
  shows "colocate rs h x = h x"
proof -
  have "rs ! i \<noteq> x" if "i \<in> set [0..<length rs]" for i
    using that assms by auto
  then show ?thesis
    unfolding colocate_cell by (rule cell_fold_skip)
qed

lemma relink_shape:
  "\<exists>p n. relink h0 rs i c = c\<lparr>metadata := (metadata c)\<lparr>prevItem := p, nextItem := n\<rparr>\<rparr>"
  unfolding relink_def by blast

lemma cell_fold_shape:
  "\<exists>p n. fold (\<lambda>i c. if rs ! i = x then relink h0 rs i c else c) is c =
     c\<lparr>metadata := (metadata c)\<lparr>prevItem := p, nextItem := n\<rparr>\<rparr>"
proof (induction "is" arbitrary: c)
  case Nil
  have "c = c\<lparr>metadata := (metadata c)\<lparr>prevItem := prevItem (metadata c),
      nextItem := nextItem (metadata c)\<rparr>\<rparr>"
    by simp
  then show ?case
    unfolding fold_simps id_apply by blast
next
  case (Cons i "is")
  show ?case
  proof (cases "rs ! i = x")
    case True
    obtain p n where r: "relink h0 rs i c =
        c\<lparr>metadata := (metadata c)\<lparr>prevItem := p, nextItem := n\<rparr>\<rparr>"
      using relink_shape by blast
    from Cons.IH [of "relink h0 rs i c"] obtain p' n' where
      "fold (\<lambda>i c. if rs ! i = x then relink h0 rs i c else c) is (relink h0 rs i c) =
         (relink h0 rs i c)\<lparr>metadata := (metadata (relink h0 rs i c))
            \<lparr>prevItem := p', nextItem := n'\<rparr>\<rparr>"
      by blast
    then have "fold (\<lambda>i c. if rs ! i = x then relink h0 rs i c else c) (i # is) c =
        c\<lparr>metadata := (metadata c)\<lparr>prevItem := p', nextItem := n'\<rparr>\<rparr>"
      using True by (simp add: r)
    then show ?thesis by blast
  next
    case False
    with Cons.IH [of c] show ?thesis by simp
  qed
qed

lemma colocate_shape:
  "\<exists>p n. colocate rs h x =
     (h x)\<lparr>metadata := (metadata (h x))\<lparr>prevItem := p, nextItem := n\<rparr>\<rparr>"
  unfolding colocate_cell by (rule cell_fold_shape)

lemma paginatorOf_colocate: "paginatorOf (colocate rs h x) = paginatorOf (h x)"
proof -
  obtain p n where "colocate rs h x =
     (h x)\<lparr>metadata := (metadata (h x))\<lparr>prevItem := p, nextItem := n\<rparr>\<rparr>"
    using colocate_shape by blast
  then show ?thesis by (simp add: paginatorOf_def)
qed

lemma relink_cong:
  assumes "\<And>y. paginatorOf (h0 y) = paginatorOf (h0' y)"
  shows "relink h0 rs = relink h0' rs"
  by (intro ext) (simp add: relink_def assms)

text \<open>A field written by the loop holds a constant afterwards, a field not written is kept.\<close>

lemma cell_fold_form:
  "\<exists>A B. (A = id \<or> (\<exists>k. A = (\<lambda>v. k))) \<and> (B = id \<or> (\<exists>k. B = (\<lambda>v. k))) \<and>
     (\<forall>c. fold (\<lambda>i c. if rs ! i = x then relink h0 rs i c else c) is c =
        c\<lparr>metadata := (metadata c)\<lparr>prevItem := A (prevItem (metadata c)),
                                      nextItem := B (nextItem (metadata c))\<rparr>\<rparr>)"
proof (induction "is")
  case Nil
  have "(\<forall>c. fold (\<lambda>i c. if rs ! i = x then relink h0 rs i c else c) [] c =
        c\<lparr>metadata := (metadata c)\<lparr>prevItem := id (prevItem (metadata c)),
                                      nextItem := id (nextItem (metadata c))\<rparr>\<rparr>)"
    by simp
  then show ?case by blast
next
  case (Cons i "is")
  then obtain A B where AB: "A = id \<or> (\<exists>k. A = (\<lambda>v. k))" "B = id \<or> (\<exists>k. B = (\<lambda>v. k))"
    "\<And>c. fold (\<lambda>i c. if rs ! i = x then relink h0 rs i c else c) is c =
        c\<lparr>metadata := (metadata c)\<lparr>prevItem := A (prevItem (metadata c)),
                                      nextItem := B (nextItem (metadata c))\<rparr>\<rparr>"
    by blast
  show ?case
  proof (cases "rs ! i = x")
    case False
    with AB show ?thesis by (simp only: fold_simps comp_apply if_False) blast
  next
    case True
    define a :: "Paginator option \<Rightarrow> Paginator option" where
      "a = (if i > 0 then (\<lambda>v. Some (paginatorOf (h0 (rs ! (i - 1))))) else id)"
    define b :: "Paginator option \<Rightarrow> Paginator option" where
      "b = (if int i < int (length rs) - 1 then (\<lambda>v. Some (paginatorOf (h0 (rs ! (i + 1)))))
            else id)"
    have r: "relink h0 rs i c =
        c\<lparr>metadata := (metadata c)\<lparr>prevItem := a (prevItem (metadata c)),
                                      nextItem := b (nextItem (metadata c))\<rparr>\<rparr>" for c
      by (simp add: relink_def a_def b_def)
    have a: "a = id \<or> (\<exists>k. a = (\<lambda>v. k))" and b: "b = id \<or> (\<exists>k. b = (\<lambda>v. k))"
      unfolding a_def b_def by auto
    have Aa: "(\<lambda>v. A (a v)) = id \<or> (\<exists>k. (\<lambda>v. A (a v)) = (\<lambda>v. k))"
      using AB(1) a by (auto simp: fun_eq_iff)
    have Bb: "(\<lambda>v. B (b v)) = id \<or> (\<exists>k. (\<lambda>v. B (b v)) = (\<lambda>v. k))"
      using AB(2) b by (auto simp: fun_eq_iff)
    have "fold (\<lambda>i c. if rs ! i = x then relink h0 rs i c else c) (i # is) c =
        c\<lparr>metadata := (metadata c)\<lparr>prevItem := (\<lambda>v. A (a v)) (prevItem (metadata c)),
                                      nextItem := (\<lambda>v. B (b v)) (nextItem (metadata c))\<rparr>\<rparr>" for c
      using True by (simp add: AB(3) r)
    with Aa Bb show ?thesis by blast
  qed
qed

lemma cell_fold_idem:
  "fold (\<lambda>i c. if rs ! i = x then relink h0 rs i c else c) is
     (fold (\<lambda>i c. if rs ! i = x then relink h0 rs i c else c) is c) =
   fold (\<lambda>i c. if rs ! i = x then relink h0 rs i c else c) is c"
proof -
  obtain A B where AB: "A = id \<or> (\<exists>k. A = (\<lambda>v. k))" "B = id \<or> (\<exists>k. B = (\<lambda>v. k))"
    "\<And>c. fold (\<lambda>i c. if rs ! i = x then relink h0 rs i c else c) is c =
        c\<lparr>metadata := (metadata c)\<lparr>prevItem := A (prevItem (metadata c)),
                                      nextItem := B (nextItem (metadata c))\<rparr>\<rparr>"
    using cell_fold_form [of rs x h0 "is"] by blast
  have "A (A v) = A v" "B (B v) = B v" for v
    using AB(1,2) by auto
  then show ?thesis
    by (simp add: AB(3))
qed

lemma colocate_idem: "colocate rs (colocate rs h) = colocate rs h"
proof
  fix x
  have "relink (colocate rs h) rs = relink h rs"
    by (rule relink_cong) (rule paginatorOf_colocate)
  then show "colocate rs (colocate rs h) x = colocate rs h x"
    by (simp only: colocate_cell [of rs "colocate rs h"]) (simp only: colocate_cell cell_fold_idem)
qed

lemma colocate_distinct:
  assumes "distinct rs" and "j < length rs"
  shows "colocate rs h (rs ! j) = relink h rs j (h (rs ! j))"
proof -
  let ?F = "\<lambda>i c. if rs ! i = rs ! j then relink h rs i c else c"
  have split: "[0..<length rs] = [0..<j] @ j # [Suc j..<length rs]"
    using assms(2) by (metis less_imp_le_nat upt_add_eq_append upt_conv_Cons zero_le le_add_diff_inverse plus_nat.add_0)
  have before: "rs ! i \<noteq> rs ! j" if "i \<in> set [0..<j]" for i
    using that assms by (auto simp: nth_eq_iff_index_eq)
  have after: "rs ! i \<noteq> rs ! j" if "i \<in> set [Suc j..<length rs]" for i
    using that assms by (auto simp: nth_eq_iff_index_eq)
  have "fold ?F [0..<length rs] (h (rs ! j)) =
      fold ?F [Suc j..<length rs] (?F j (fold ?F [0..<j] (h (rs ! j))))"
    by (simp only: split fold_append fold_simps comp_apply)
  also have "\<dots> = ?F j (fold ?F [0..<j] (h (rs ! j)))"
    using after by (rule cell_fold_skip)
  also have "fold ?F [0..<j] (h (rs ! j)) = h (rs ! j)"
    using before by (rule cell_fold_skip)
  finally show ?thesis
    by (simp add: colocate_cell)
qed

lemma relink_links:
  assumes "prevItem (metadata c) = None" and "nextItem (metadata c) = None" and "j < length rs"
  shows "relink h rs j c =
     c\<lparr>metadata := (metadata c)
        \<lparr>prevItem := (if j = 0 then None else Some (paginatorOf (h (rs ! (j - 1))))),
         nextItem := (if j + 1 = length rs then None else Some (paginatorOf (h (rs ! (j + 1)))))\<rparr>\<rparr>"
proof -
  have n: "int j < int (length rs) - 1 \<longleftrightarrow> j + 1 \<noteq> length rs"
    using assms(3) by auto
  obtain i m z where c: "c = \<lparr>Entry.id' = i, metadata = m, \<dots> = z\<rparr>"
    by (cases c)
  show ?thesis
    using assms(1,2) unfolding relink_def n c
    by (cases m) simp
qed

lemma colocate_links:
  assumes "distinct rs" and "j < length rs"
    and "prevItem (metadata (h (rs ! j))) = None" and "nextItem (metadata (h (rs ! j))) = None"
  shows "colocate rs h (rs ! j) =
     (h (rs ! j))\<lparr>metadata := (metadata (h (rs ! j)))
        \<lparr>prevItem := (if j = 0 then None else Some (paginatorOf (h (rs ! (j - 1))))),
         nextItem := (if j + 1 = length rs then None else Some (paginatorOf (h (rs ! (j + 1)))))\<rparr>\<rparr>"
  unfolding colocate_distinct [OF assms(1,2)]
  using assms(3,4,2) by (rule relink_links)

lemma allocate_nth:
  "i < length items \<Longrightarrow> allocate items base h ([base..<base + length items] ! i) = items ! i"
  by (simp add: allocate_def)

lemma releaseOf_unlinked:
  "prevItem (metadata (releaseOf lib releaseDir ctx options f s fm c e t)) = None \<and>
   nextItem (metadata (releaseOf lib releaseDir ctx options f s fm c e t)) = None"
  by (simp add: releaseOf_def Let_def)

lemma highlightOf_unlinked:
  "prevItem (metadata (highlightOf lib releaseDir ctx options f s fm c e t)) = None \<and>
   nextItem (metadata (highlightOf lib releaseDir ctx options f s fm c e t)) = None"
  by (simp add: highlightOf_def Let_def)

lemma generateReleases_unlinked:
  assumes "generateReleases lib env releaseDir ctx options l0 = (l1, Inr docs)"
    and "i < length docs"
  shows "prevItem (metadata (docs ! i)) = None \<and> nextItem (metadata (docs ! i)) = None"
proof -
  from assms(2) have "docs ! i \<in> set docs" by simp
  from generateReleases_sound [OF assms(1) this] releaseOf_unlinked show ?thesis
    by metis
qed

lemma generateHighlights_unlinked:
  assumes "generateHighlights lib env releaseDir ctx options l0 = (l1, Inr docs)"
    and "i < length docs"
  shows "prevItem (metadata (docs ! i)) = None \<and> nextItem (metadata (docs ! i)) = None"
proof -
  from assms(2) have "docs ! i \<in> set docs" by simp
  from generateHighlights_sound [OF assms(1) this] highlightOf_unlinked show ?thesis
    by metis
qed

text \<open>The linker on a fresh array whose objects carry no links.\<close>

lemma colocate_allocate:
  assumes "\<And>i. i < length items \<Longrightarrow>
      prevItem (metadata (items ! i)) = None \<and> nextItem (metadata (items ! i)) = None"
    and "i < length items"
  shows "colocate [base..<base + length items] (allocate items base h)
           ([base..<base + length items] ! i) =
     (items ! i)\<lparr>metadata := (metadata (items ! i))
        \<lparr>prevItem := (if i = 0 then None else Some (paginatorOf (items ! (i - 1)))),
         nextItem := (if i + 1 = length items then None
                      else Some (paginatorOf (items ! (i + 1))))\<rparr>\<rparr>"
proof -
  let ?rs = "[base..<base + length items]"
  let ?h = "allocate items base h"
  have len: "length ?rs = length items" by simp
  have at: "?h (?rs ! k) = items ! k" if "k < length items" for k
    using that by (rule allocate_nth)
  have "colocate ?rs ?h (?rs ! i) =
     (?h (?rs ! i))\<lparr>metadata := (metadata (?h (?rs ! i)))
        \<lparr>prevItem := (if i = 0 then None else Some (paginatorOf (?h (?rs ! (i - 1))))),
         nextItem := (if i + 1 = length ?rs then None
                      else Some (paginatorOf (?h (?rs ! (i + 1)))))\<rparr>\<rparr>"
    using assms by (intro colocate_links) (simp_all only: len at distinct_upt)
  also have "?h (?rs ! i) = items ! i"
    using assms(2) by (rule at)
  also have "(if i = 0 then None else Some (paginatorOf (?h (?rs ! (i - 1))))) =
      (if i = 0 then None else Some (paginatorOf (items ! (i - 1))))"
    using assms(2) at [of "i - 1"] by auto
  also have "(if i + 1 = length ?rs then None else Some (paginatorOf (?h (?rs ! (i + 1))))) =
      (if i + 1 = length items then None else Some (paginatorOf (items ! (i + 1))))"
    using assms(2) at [of "i + 1"] by (auto simp only: len split: if_splits)
  finally show ?thesis .
qed

lemma loadContent_Inr:
  assumes "loadContent lib env ctx options st = (st', Inr (rs, hs))"
  shows "\<exists>generated highlights l1 l2.
     generateReleases lib env (path_resolve lib (siteDir ctx) (path options)) ctx options
       (markerLastIndex st) = (l1, Inr generated) \<and>
     generateHighlights lib env (path_resolve lib (siteDir ctx) (path options)) ctx options l1 =
       (l2, Inr highlights) \<and>
     rs = [nextRef st..<nextRef st + length generated] \<and>
     hs = [nextRef st + length generated..<nextRef st + length generated + length highlights] \<and>
     releaseHeap st' = colocate rs (allocate generated (nextRef st) (releaseHeap st)) \<and>
     highlightHeap st' =
       colocate hs (allocate highlights (nextRef st + length generated) (highlightHeap st)) \<and>
     releases st' = rs \<and> releaseHighlights st' = hs \<and> markerLastIndex st' = l2"
  using assms unfolding loadContent_def Let_def
  by (auto split: sum.splits prod.splits)

text \<open>
  Claim C1. When \<open>loadContent\<close> succeeds, the arrays it returns hold the generated
  documents in their order, and the object at every index is the generated document with
  \<open>prevItem\<close> set to the title and permalink of its predecessor, absent at the first
  index, and \<open>nextItem\<close> set to those of its successor, absent at the last index. This
  holds for the releases and for the highlights.
\<close>

theorem sequence_links:
  assumes "loadContent lib env ctx options st = (st', Inr (rs, hs))"
  shows "\<exists>generated highlights l1 l2.
     generateReleases lib env (path_resolve lib (siteDir ctx) (path options)) ctx options
       (markerLastIndex st) = (l1, Inr generated) \<and>
     generateHighlights lib env (path_resolve lib (siteDir ctx) (path options)) ctx options l1 =
       (l2, Inr highlights) \<and>
     length rs = length generated \<and> length hs = length highlights \<and>
     (\<forall>i<length generated.
        releaseHeap st' (rs ! i) =
          (generated ! i)\<lparr>metadata := (metadata (generated ! i))
             \<lparr>prevItem := (if i = 0 then None else Some (paginatorOf (generated ! (i - 1)))),
              nextItem := (if i + 1 = length generated then None
                           else Some (paginatorOf (generated ! (i + 1))))\<rparr>\<rparr>) \<and>
     (\<forall>i<length highlights.
        highlightHeap st' (hs ! i) =
          (highlights ! i)\<lparr>metadata := (metadata (highlights ! i))
             \<lparr>prevItem := (if i = 0 then None else Some (paginatorOf (highlights ! (i - 1)))),
              nextItem := (if i + 1 = length highlights then None
                           else Some (paginatorOf (highlights ! (i + 1))))\<rparr>\<rparr>)"
proof -
  let ?dir = "path_resolve lib (siteDir ctx) (path options)"
  from loadContent_Inr [OF assms] obtain generated highlights l1 l2 where
    g: "generateReleases lib env ?dir ctx options (markerLastIndex st) = (l1, Inr generated)" and
    h: "generateHighlights lib env ?dir ctx options l1 = (l2, Inr highlights)" and
    rs: "rs = [nextRef st..<nextRef st + length generated]" and
    hs: "hs = [nextRef st + length generated..<
               nextRef st + length generated + length highlights]" and
    rh: "releaseHeap st' = colocate rs (allocate generated (nextRef st) (releaseHeap st))" and
    hh: "highlightHeap st' =
           colocate hs (allocate highlights (nextRef st + length generated) (highlightHeap st))"
    by blast
  have r1: "releaseHeap st' (rs ! i) =
          (generated ! i)\<lparr>metadata := (metadata (generated ! i))
             \<lparr>prevItem := (if i = 0 then None else Some (paginatorOf (generated ! (i - 1)))),
              nextItem := (if i + 1 = length generated then None
                           else Some (paginatorOf (generated ! (i + 1))))\<rparr>\<rparr>"
    if "i < length generated" for i
    unfolding rh rs using generateReleases_unlinked [OF g] that by (rule colocate_allocate)
  have h1: "highlightHeap st' (hs ! i) =
          (highlights ! i)\<lparr>metadata := (metadata (highlights ! i))
             \<lparr>prevItem := (if i = 0 then None else Some (paginatorOf (highlights ! (i - 1)))),
              nextItem := (if i + 1 = length highlights then None
                           else Some (paginatorOf (highlights ! (i + 1))))\<rparr>\<rparr>"
    if "i < length highlights" for i
    unfolding hh hs using generateHighlights_unlinked [OF h] that by (rule colocate_allocate)
  have "length rs = length generated" "length hs = length highlights"
    by (simp_all add: rs hs)
  with g h r1 h1 show ?thesis by blast
qed

text \<open>
  Claim C9. Running the linker again on the array it has linked leaves every object, and
  so every \<open>prevItem\<close> and \<open>nextItem\<close>, as the first run left it.
\<close>

theorem linker_idempotent: "colocate rs (colocate rs h) = colocate rs h"
  by (rule colocate_idem)

text \<open>
  Claim C8, amended. The linker writes into the objects of the array: an object after
  the pass is the object before it with at most its \<open>prevItem\<close> and \<open>nextItem\<close>
  replaced, and an object that is not in the array is unchanged.
\<close>

theorem linker_frame:
  "(\<exists>p n. colocate rs h x =
      (h x)\<lparr>metadata := (metadata (h x))\<lparr>prevItem := p, nextItem := n\<rparr>\<rparr>) \<and>
   (x \<notin> set rs \<longrightarrow> colocate rs h x = h x)"
  using colocate_shape [of rs h x] colocate_outside [of x rs h] by blast

text \<open>
  Claim C8, as stated, fails: the pass changes the document at address 0 of the sample
  store in place, and \<open>loadContent\<close> assigns the variable \<open>releases\<close> of the closure.
\<close>

theorem linker_mutates_documents:
  "nextItem (metadata (sampleHeap 0)) = None \<and>
   nextItem (metadata (colocate [0, 1] sampleHeap 0)) =
     Some \<lparr> Paginator.title = ''v2'', Paginator.permalink = ''/releases-new/v2'' \<rparr> \<and>
   releases initialState = [] \<and>
   releases (fst (loadContent sampleLib (sampleEnv sampleFiles False) sampleContext
                    DEFAULT_OPTIONS initialState)) = [0, 1]"
  by code_simp

theorem linker_frame_witness:
  "(2::nat) \<notin> set [0, 1] \<and> colocate [0, 1] sampleHeap 2 = sampleHeap 2 \<and>
   (\<exists>p n. colocate [0, 1] sampleHeap 0 =
      (sampleHeap 0)\<lparr>metadata := (metadata (sampleHeap 0))\<lparr>prevItem := p, nextItem := n\<rparr>\<rparr>)"
  using linker_frame [of "[0, 1]" sampleHeap 2] linker_frame [of "[0, 1]" sampleHeap 0]
  by simp

theorem sequence_links_witness:
  "snd (loadContent sampleLib (sampleEnv sampleFiles False) sampleContext DEFAULT_OPTIONS
          initialState) = Inr ([0, 1], [2, 3]) \<and>
   prevItem (metadata (releaseHeap (fst (loadContent sampleLib (sampleEnv sampleFiles False)
      sampleContext DEFAULT_OPTIONS initialState)) 0)) = None \<and>
   nextItem (metadata (releaseHeap (fst (loadContent sampleLib (sampleEnv sampleFiles False)
      sampleContext DEFAULT_OPTIONS initialState)) 0)) =
     Some \<lparr> Paginator.title = ''v2'', Paginator.permalink = ''/releases-new/v2'' \<rparr> \<and>
   prevItem (metadata (releaseHeap (fst (loadContent sampleLib (sampleEnv sampleFiles False)
      sampleContext DEFAULT_OPTIONS initialState)) 1)) =
     Some \<lparr> Paginator.title = ''v1'', Paginator.permalink = ''/releases-new/v1'' \<rparr> \<and>
   nextItem (metadata (releaseHeap (fst (loadContent sampleLib (sampleEnv sampleFiles False)
      sampleContext DEFAULT_OPTIONS initialState)) 1)) = None"
proof -
  define st' where "st' = fst (loadContent sampleLib (sampleEnv sampleFiles False) sampleContext
      DEFAULT_OPTIONS initialState)"
  have res: "snd (loadContent sampleLib (sampleEnv sampleFiles False) sampleContext
      DEFAULT_OPTIONS initialState) = Inr ([0, 1], [2, 3])"
    by code_simp
  have lc: "loadContent sampleLib (sampleEnv sampleFiles False) sampleContext DEFAULT_OPTIONS
      initialState = (st', Inr ([0, 1], [2, 3]))"
    unfolding st'_def using res by (simp add: prod_eq_iff)
  have gen: "generateReleases sampleLib (sampleEnv sampleFiles False)
      (path_resolve sampleLib (siteDir sampleContext) (path DEFAULT_OPTIONS)) sampleContext
      DEFAULT_OPTIONS (markerLastIndex initialState) = (0, Inr [v1Release, v2Release])"
    by code_simp
  have p1: "paginatorOf v1Release =
      \<lparr> Paginator.title = ''v1'', Paginator.permalink = ''/releases-new/v1'' \<rparr>"
    by code_simp
  have p2: "paginatorOf v2Release =
      \<lparr> Paginator.title = ''v2'', Paginator.permalink = ''/releases-new/v2'' \<rparr>"
    by code_simp
  from sequence_links [OF lc] gen
  have links: "\<forall>i<length [v1Release, v2Release].
        releaseHeap st' ([0, 1] ! i) =
          ([v1Release, v2Release] ! i)\<lparr>metadata := (metadata ([v1Release, v2Release] ! i))
             \<lparr>prevItem := (if i = 0 then None
                           else Some (paginatorOf ([v1Release, v2Release] ! (i - 1)))),
              nextItem := (if i + 1 = length [v1Release, v2Release] then None
                           else Some (paginatorOf ([v1Release, v2Release] ! (i + 1))))\<rparr>\<rparr>"
    by auto
  from links [rule_format, of 0] have l0: "releaseHeap st' 0 =
      v1Release\<lparr>metadata := (metadata v1Release)\<lparr>prevItem := None,
        nextItem := Some (paginatorOf v2Release)\<rparr>\<rparr>"
    by simp
  from links [rule_format, of 1] have l1: "releaseHeap st' (Suc 0) =
      v2Release\<lparr>metadata := (metadata v2Release)\<lparr>prevItem := Some (paginatorOf v1Release),
        nextItem := None\<rparr>\<rparr>"
    by simp
  have f: "prevItem (metadata (releaseHeap st' 0)) = None"
    "nextItem (metadata (releaseHeap st' 0)) =
       Some \<lparr> Paginator.title = ''v2'', Paginator.permalink = ''/releases-new/v2'' \<rparr>"
    "prevItem (metadata (releaseHeap st' 1)) =
       Some \<lparr> Paginator.title = ''v1'', Paginator.permalink = ''/releases-new/v1'' \<rparr>"
    "nextItem (metadata (releaseHeap st' 1)) = None"
    by (simp_all add: l0 l1 p1 p2)
  from res f show ?thesis
    unfolding st'_def [symmetric] by (intro conjI)
qed

section \<open>Properties of linkify\<close>

lemma joinWith_Cons_Cons: "joinWith c ((x # l) # ls) = x # joinWith c (l # ls)"
  by (cases ls) simp_all

lemma splitOn_nonempty: "splitOn c s \<noteq> []"
  by (induction s) (simp_all add: Let_def)

lemma joinWith_splitOn: "joinWith c (splitOn c s) = s"
proof (induction s)
  case Nil
  then show ?case by simp
next
  case (Cons x xs)
  obtain l ls where ls: "splitOn c xs = l # ls"
    using splitOn_nonempty [of c xs] by (cases "splitOn c xs") auto
  show ?case
  proof (cases "x = c")
    case True
    with Cons ls show ?thesis by (simp add: Let_def)
  next
    case False
    with Cons ls show ?thesis by (simp add: Let_def joinWith_Cons_Cons)
  qed
qed

lemma firstSome_Some:
  "firstSome f xs = Some y \<Longrightarrow> \<exists>x\<in>set xs. f x = Some y"
  by (induction xs) (auto split: option.splits)

lemma startsWith_length:
  assumes "startsWith s p"
  shows "length p \<le> length s"
proof -
  from assms have "length (take (length p) s) = length p"
    by (simp only: startsWith_def)
  then show ?thesis by simp
qed

lemma captureLen_bounds:
  assumes "captureLen s = Some n"
  shows "0 < n \<and> n \<le> length s"
proof -
  from assms obtain k where k: "find (\<lambda>k. startsWith (drop k s) ''.md'')
      (rev [1..<length (takeWhile linkChar s) + 1]) = Some k"
    and n: "n = k + 3 + (if startsWith (drop (k + 3) s) ''x'' then 1 else 0)"
    by (auto simp: captureLen_def Let_def split: option.splits)
  from k have md: "startsWith (drop k s) ''.md''"
    by (auto simp: find_Some_iff)
  from startsWith_length [OF md] have k3: "k + 3 \<le> length s" by simp
  show ?thesis
  proof (cases "startsWith (drop (k + 3) s) ''x''")
    case True
    from startsWith_length [OF True] have "k + 4 \<le> length s" by simp
    with n True show ?thesis by simp
  next
    case False
    with n k3 show ?thesis by simp
  qed
qed

lemma targetAt_bounds:
  assumes "targetAt line q = Some (m, e)"
  shows "q < e \<and> e \<le> length line"
proof -
  from assms obtain n where n: "captureLen (drop q line) = Some n" and e: "e = q + n"
    by (auto simp: targetAt_def Let_def split: if_splits option.splits)
  from captureLen_bounds [OF n] e show ?thesis by auto
qed

lemma matchAt_bounds:
  assumes "matchAt line p = Some (m, e)"
  shows "p < e \<and> e \<le> length line"
proof -
  from assms have "targetAt line (p + 2) = Some (m, e) \<or> targetAt line (p + 3) = Some (m, e)"
    by (auto simp: matchAt_def Let_def split: if_splits option.splits list.splits)
  with targetAt_bounds [of line "p + 2" m e] targetAt_bounds [of line "p + 3" m e]
  show ?thesis by auto
qed

lemma exec_bounds:
  assumes "exec line lastIndex = Some (m, e)"
  shows "lastIndex < e \<and> e \<le> length line"
proof -
  from assms have "firstSome (matchAt line) [lastIndex..<length line] = Some (m, e)"
    by (simp add: exec_def split: if_splits)
  from firstSome_Some [OF this] obtain p where "lastIndex \<le> p" "matchAt line p = Some (m, e)"
    by auto
  with matchAt_bounds [of line p m e] show ?thesis by auto
qed

lemma findPermalink_Nil: "findPermalink [] a = None"
  by (simp add: findPermalink_def)

lemma rewriteLinks_no_documents:
  "rewriteLinks lib site releasePath [] line lastIndex = Some line"
proof (induction "length line - lastIndex" arbitrary: lastIndex rule: less_induct)
  case less
  show ?case
  proof (cases "exec line lastIndex")
    case None
    then show ?thesis by (subst rewriteLinks.simps) simp
  next
    case (Some r)
    obtain m e where r: "r = (m, e)" by (cases r)
    from exec_bounds Some r have "lastIndex < e" "e \<le> length line" by auto
    then have "length line - e < length line - lastIndex" by simp
    from less [OF this] Some r show ?thesis
      by (subst rewriteLinks.simps) (simp add: findPermalink_Nil)
  qed
qed

lemma linkifyLines_no_documents:
  "linkifyLines lib site releasePath [] fencedBlock ls = Some ls"
  by (induction ls arbitrary: fencedBlock) (simp_all add: Let_def rewriteLinks_no_documents)

text \<open>
  Claim C10. With an empty collection \<open>linkify\<close> returns, and returns its input
  text unchanged: no target has a document, so no line is rewritten, and joining the
  lines of a split text gives the text back.
\<close>

theorem linkify_no_documents: "linkify lib fileContent site releasePath [] = Some fileContent"
  by (simp add: linkify_def linkifyLines_no_documents joinWith_splitOn)

lemma targetAt_not_https:
  assumes "targetAt line q = Some (m, e)"
  shows "\<not> startsWith m ''https''"
proof
  assume h: "startsWith m ''https''"
  from assms obtain n where n: "captureLen (drop q line) = Some n"
    and m: "m = take n (drop q line)" and s: "\<not> startsWith (drop q line) ''https''"
    by (auto simp: targetAt_def Let_def split: if_splits option.splits)
  from startsWith_length [OF h] m have "length ''https'' \<le> n" by simp
  then have "take (length ''https'') m = take (length ''https'') (drop q line)"
    unfolding m by (simp only: take_take min.absorb1)
  with h s show False
    by (simp only: startsWith_def simp_thms)
qed

lemma exec_not_https:
  assumes "exec line lastIndex = Some (m, e)"
  shows "\<not> startsWith m ''https''"
proof -
  from assms have "firstSome (matchAt line) [lastIndex..<length line] = Some (m, e)"
    by (simp add: exec_def split: if_splits)
  from firstSome_Some [OF this] obtain p where "matchAt line p = Some (m, e)"
    by auto
  then have "targetAt line (p + 2) = Some (m, e) \<or> targetAt line (p + 3) = Some (m, e)"
    by (auto simp: matchAt_def Let_def split: if_splits option.splits list.splits)
  with targetAt_not_https show ?thesis by blast
qed

text \<open>
  Claim C2 at a failing input. The collection generated from the two sample files has a
  document for \<^verbatim>\<open>./v2.md\<close>, and a line that holds only that link is rewritten. After
  the longer first link is replaced by its shorter permalink, the search resumes at the
  position where the first match ended in the old line, which lies behind the second
  link: the second link is left as it was.
\<close>

theorem linkify_misses_second_link:
  "generateReleases sampleLib (sampleEnv linkFiles True) ''/site/releases'' sampleContext
     DEFAULT_OPTIONS 0 = (0, Inr [notesRelease, secondRelease]) \<and>
   linkify sampleLib ''[two](./v2.md)'' ''/site'' ''/site/releases''
     [notesRelease, secondRelease] = Some ''[two](/releases-new/v2)'' \<and>
   linkify sampleLib ''[one](./initial-release-notes.md) [two](./v2.md)'' ''/site''
     ''/site/releases'' [notesRelease, secondRelease] =
     Some ''[one](/releases-new/v1) [two](./v2.md)''"
  by code_simp

text \<open>
  Claim C7 at a failing input. The pattern does not match the \<^verbatim>\<open>https\<close> target, and
  alone on its line the target is left unchanged. The relative link after it is matched,
  and the replacement is made at the first occurrence of its text in the line, which lies
  inside the external target: the external target is changed. A target that begins with
  \<^verbatim>\<open>http:\<close> is matched like a relative one.
\<close>

theorem linkify_alters_external_target:
  "linkify sampleLib ''[ext](https://example.com/v1.md)'' ''/site'' ''/site/releases''
     [v1Release, v2Release] = Some ''[ext](https://example.com/v1.md)'' \<and>
   exec ''[ext](https://example.com/v1.md) [rel](v1.md)'' 0 = Some (''v1.md'', 44) \<and>
   exec ''[ext](http://example.com/v1.md)'' 0 = Some (''http://example.com/v1.md'', 30) \<and>
   linkify sampleLib ''[ext](https://example.com/v1.md) [rel](v1.md)'' ''/site''
     ''/site/releases'' [v1Release, v2Release] =
     Some ''[ext](https://example.com//releases-new/v1) [rel](/releases-new/v1)''"
  by code_simp

text \<open>
  A line after which the fence flag is set is copied as it is, and a single link with a
  document is rewritten.
\<close>

lemma linkifyLines_fenced:
  assumes "linkifyLines lib site releasePath rels fencedBlock (pre @ l # post) = Some out"
    and "fold (\<lambda>line f. if isFence line then \<not> f else f) (pre @ [l]) fencedBlock"
  shows "out ! length pre = l"
  using assms
proof (induction pre arbitrary: fencedBlock out)
  case Nil
  then show ?case
    by (auto simp: Let_def split: if_splits option.splits)
next
  case (Cons p pre)
  let ?b = "if isFence p then \<not> fencedBlock else fencedBlock"
  from Cons.prems(1) obtain p' out' where out: "out = p' # out'"
    and rest: "linkifyLines lib site releasePath rels ?b (pre @ l # post) = Some out'"
    by (auto simp: Let_def split: if_splits option.splits)
  from Cons.prems(2) have "fold (\<lambda>line f. if isFence line then \<not> f else f) (pre @ [l]) ?b"
    by simp
  from Cons.IH [OF rest this] out show ?case by simp
qed

lemma linkify_rewrites_single_link:
  "linkify sampleLib ''[rel](./v1.md)'' ''/site'' ''/site/releases'' [v1Release, v2Release] =
     Some ''[rel](/releases-new/v1)''"
  by code_simp

lemma firstSome_append:
  "firstSome f (xs @ ys) = (case firstSome f xs of Some y \<Rightarrow> Some y | None \<Rightarrow> firstSome f ys)"
  by (induction xs) (simp_all split: option.splits)

lemma firstSome_None: "(\<And>x. x \<in> set xs \<Longrightarrow> f x = None) \<Longrightarrow> firstSome f xs = None"
  by (induction xs) simp_all

lemma matchAt_other:
  assumes "p < length line" and "line ! p \<noteq> CHR '']''"
  shows "matchAt line p = None"
proof -
  from assms(1) obtain c rest where d: "drop p line = c # rest" and c: "c = line ! p"
    by (metis Cons_nth_drop_Suc)
  with assms(2) show ?thesis
    by (simp add: matchAt_def startsWith_def)
qed

lemma matchAt_loop: "matchAt (pre @ ''](v1.md)'') (length pre) = Some (''v1.md'', length pre + 7)"
proof -
  have c: "captureLen ''v1.md)'' = Some 5"
    by code_simp
  have t: "targetAt (pre @ ''](v1.md)'') (length pre + 2) = Some (''v1.md'', length pre + 7)"
    by (simp add: targetAt_def c startsWith_def)
  show ?thesis
    using t by (simp add: matchAt_def startsWith_def)
qed

lemma exec_loop:
  assumes "li \<le> length pre" and "CHR '']'' \<notin> set (drop li pre)"
  shows "exec (pre @ ''](v1.md)'') li = Some (''v1.md'', length pre + 7)"
proof -
  let ?line = "pre @ ''](v1.md)''"
  define n where "n = length ?line"
  have n: "length pre < n" "li \<le> n"
    using assms(1) by (simp_all add: n_def)
  have split: "[li..<n] = [li..<length pre] @ length pre # [Suc (length pre)..<n]"
    using assms(1) n(1) by (metis le_Suc_ex less_imp_le_nat upt_add_eq_append upt_conv_Cons)
  have none: "matchAt ?line p = None" if "p \<in> set [li..<length pre]" for p
  proof (rule matchAt_other)
    from that show "p < length ?line" by simp
    from that have "pre ! p \<in> set (drop li pre)"
      by (auto simp: in_set_conv_nth intro!: exI [of _ "p - li"])
    with assms(2) that show "?line ! p \<noteq> CHR '']''"
      by (auto simp: nth_append)
  qed
  have before: "firstSome (matchAt ?line) [li..<length pre] = None"
    using none by (rule firstSome_None)
  have "exec ?line li = firstSome (matchAt ?line) [li..<n]"
    using n(2) unfolding exec_def n_def by (simp only: not_less [symmetric] if_False)
  also have "\<dots> = Some (''v1.md'', length pre + 7)"
    unfolding split firstSome_append before by (simp add: matchAt_loop)
  finally show ?thesis .
qed

lemma indexOf_loop:
  assumes "CHR ''v'' \<notin> set pre"
  shows "indexOf (pre @ ''](v1.md)'') ''v1.md'' = Some (length pre + 2)"
proof -
  let ?line = "pre @ ''](v1.md)''"
  have here: "startsWith (drop (length pre + 2) ?line) ''v1.md''"
    by (simp add: startsWith_def)
  have earlier: "\<not> startsWith (drop j ?line) ''v1.md''" if "j < length pre + 2" for j
  proof (cases "j < length pre")
    case True
    then obtain rest where d: "drop j pre = pre ! j # rest"
      by (metis Cons_nth_drop_Suc)
    from True have "pre ! j \<in> set pre" by simp
    with assms have "pre ! j \<noteq> CHR ''v''" by auto
    with True d show ?thesis
      by (simp add: startsWith_def)
  next
    case False
    with that have "j = length pre \<or> j = length pre + 1" by auto
    then show ?thesis
      by (auto simp: startsWith_def)
  qed
  have "find (\<lambda>i. startsWith (drop i ?line) ''v1.md'') [0..<length ?line + 1] =
      Some (length pre + 2)"
    unfolding find_Some_iff
    by (rule exI [of _ "length pre + 2"]) (use here earlier in \<open>simp del: upt.simps\<close>)
  then show ?thesis
    by (simp only: indexOf_def)
qed

lemma replaceFirst_loop:
  assumes "CHR ''v'' \<notin> set pre"
  shows "replaceFirst (pre @ ''](v1.md)'') ''v1.md'' ''xxxxx](v1.md'' =
     (pre @ ''](xxxxx'') @ ''](v1.md)''"
  by (simp add: replaceFirst_def indexOf_loop [OF assms] Let_def)

lemma loop_lookup:
  "findPermalink [loopRelease]
     (''@site/'' @ path_relative sampleLib ''/site''
        (path_resolve sampleLib ''/site/releases'' ''v1.md'')) = Some ''xxxxx](v1.md''"
  by code_simp

lemma rewriteLinks_loop_invariant:
  assumes "rewriteLinks lib site releasePath rels line li = Some y"
  shows "\<not> (lib = sampleLib \<and> site = ''/site'' \<and> releasePath = ''/site/releases'' \<and>
            rels = [loopRelease] \<and>
            (\<exists>pre. line = pre @ ''](v1.md)'' \<and> li \<le> length pre \<and> CHR ''v'' \<notin> set pre \<and>
                   CHR '']'' \<notin> set (drop li pre)))"
proof (rule rewriteLinks.raw_induct [where P = "\<lambda>lib site releasePath rels line li y.
    \<not> (lib = sampleLib \<and> site = ''/site'' \<and> releasePath = ''/site/releases'' \<and>
            rels = [loopRelease] \<and>
            (\<exists>pre. line = pre @ ''](v1.md)'' \<and> li \<le> length pre \<and> CHR ''v'' \<notin> set pre \<and>
                   CHR '']'' \<notin> set (drop li pre)))", OF _ assms])
  fix f :: "Lib \<Rightarrow> string \<Rightarrow> string \<Rightarrow> Release list \<Rightarrow> string \<Rightarrow> nat \<Rightarrow> string option"
    and lib site releasePath and rels :: "Release list" and line li y
  assume IH: "\<And>lib site releasePath rels line li y.
      f lib site releasePath rels line li = Some y \<Longrightarrow>
      \<not> (lib = sampleLib \<and> site = ''/site'' \<and> releasePath = ''/site/releases'' \<and>
            rels = [loopRelease] \<and>
            (\<exists>pre. line = pre @ ''](v1.md)'' \<and> li \<le> length pre \<and> CHR ''v'' \<notin> set pre \<and>
                   CHR '']'' \<notin> set (drop li pre)))"
  assume body: "(case exec line li of
       None \<Rightarrow> Some line
     | Some (mdLink, lastIndex') \<Rightarrow>
         let aliasedPostSource =
               ''@site/'' @ path_relative lib site (path_resolve lib releasePath mdLink);
             releasePermalink = findPermalink rels aliasedPostSource
         in f lib site releasePath rels
              (case releasePermalink of
                 None \<Rightarrow> line
               | Some p \<Rightarrow> if p \<noteq> [] then replaceFirst line mdLink p else line)
              lastIndex') = Some y"
  show "\<not> (lib = sampleLib \<and> site = ''/site'' \<and> releasePath = ''/site/releases'' \<and>
            rels = [loopRelease] \<and>
            (\<exists>pre. line = pre @ ''](v1.md)'' \<and> li \<le> length pre \<and> CHR ''v'' \<notin> set pre \<and>
                   CHR '']'' \<notin> set (drop li pre)))"
  proof
    assume inv: "lib = sampleLib \<and> site = ''/site'' \<and> releasePath = ''/site/releases'' \<and>
            rels = [loopRelease] \<and>
            (\<exists>pre. line = pre @ ''](v1.md)'' \<and> li \<le> length pre \<and> CHR ''v'' \<notin> set pre \<and>
                   CHR '']'' \<notin> set (drop li pre))"
    then obtain pre where pre: "line = pre @ ''](v1.md)''" "li \<le> length pre"
      "CHR ''v'' \<notin> set pre" "CHR '']'' \<notin> set (drop li pre)"
      by blast
    from inv have c: "lib = sampleLib" "site = ''/site''" "releasePath = ''/site/releases''"
      "rels = [loopRelease]"
      by simp_all
    have e: "exec line li = Some (''v1.md'', length pre + 7)"
      unfolding pre(1) using pre(2,4) by (rule exec_loop)
    have r: "replaceFirst line ''v1.md'' ''xxxxx](v1.md'' = (pre @ ''](xxxxx'') @ ''](v1.md)''"
      unfolding pre(1) using pre(3) by (rule replaceFirst_loop)
    from body have "f sampleLib ''/site'' ''/site/releases'' [loopRelease]
        ((pre @ ''](xxxxx'') @ ''](v1.md)'') (length pre + 7) = Some y"
      unfolding e c by (simp only: option.case prod.case Let_def loop_lookup r) simp
    from IH [OF this] pre(3) show False
      by auto
  qed
qed

text \<open>
  The loop need not end: with this permalink every replacement puts a new match behind
  \<^verbatim>\<open>lastIndex\<close>, and \<open>linkify\<close> does not return.
\<close>

lemma linkify_may_not_return:
  "linkify sampleLib ''[a](v1.md)'' ''/site'' ''/site/releases'' [loopRelease] = None"
proof -
  have "rewriteLinks sampleLib ''/site'' ''/site/releases'' [loopRelease] ''[a](v1.md)'' 0 = None"
  proof (cases "rewriteLinks sampleLib ''/site'' ''/site/releases'' [loopRelease] ''[a](v1.md)'' 0")
    case None
    then show ?thesis .
  next
    case (Some y)
    from rewriteLinks_loop_invariant [OF Some] have "\<not> (\<exists>pre. ''[a](v1.md)'' = pre @ ''](v1.md)'' \<and>
        0 \<le> length pre \<and> CHR ''v'' \<notin> set pre \<and> CHR '']'' \<notin> set (drop 0 pre))"
      by simp
    moreover have "''[a](v1.md)'' = ''[a'' @ ''](v1.md)'' \<and>
        0 \<le> length ''[a'' \<and> CHR ''v'' \<notin> set ''[a'' \<and> CHR '']'' \<notin> set (drop 0 ''[a'')"
      by simp
    ultimately show ?thesis by blast
  qed
  then show ?thesis
    by (simp add: linkify_def isFence_def trim_def startsWith_def isSpace_def newline_def Let_def)
qed

end
